theory Spec2Isabelle
  imports Complex_Main
begin

section \<open>Strings as the parser sees them\<close>

text \<open>
  The parser (\<^verbatim>\<open>parser.ts\<close>) works on JavaScript strings. A string is modelled as a
  \<^typ>\<open>string\<close>, one \<^typ>\<open>char\<close> per code unit, so the model covers the inputs whose
  code units are below 256 (ASCII and Latin-1). In that range the white space of
  \<^verbatim>\<open>String.prototype.trim\<close> and of the regular expression class \<^verbatim>\<open>\s\<close> is: tab, line
  feed, vertical tab, form feed, carriage return, space and no-break space. The dot of a
  regular expression matches every code unit but the line terminators (line feed and
  carriage return in that range).
\<close>

definition is_space :: "char \<Rightarrow> bool" where
  "is_space c = (c \<in> set [CHR 0x09, CHR 0x0A, CHR 0x0B, CHR 0x0C, CHR 0x0D, CHR 0x20, CHR 0xA0])"

definition is_dot :: "char \<Rightarrow> bool" where
  "is_dot c = (c \<noteq> CHR 0x0A \<and> c \<noteq> CHR 0x0D)"

definition is_digit :: "char \<Rightarrow> bool" where
  "is_digit c = (c \<in> set ''0123456789'')"

definition trim :: "string \<Rightarrow> string" where
  "trim s = rev (dropWhile is_space (rev (dropWhile is_space s)))"

definition startsWith :: "string \<Rightarrow> string \<Rightarrow> bool" where
  "startsWith s p = (take (length p) s = p)"

fun includes_str :: "string \<Rightarrow> string \<Rightarrow> bool" where
  "includes_str [] p = (p = [])"
| "includes_str (c # cs) p = (startsWith (c # cs) p \<or> includes_str cs p)"

definition indexOf :: "string \<Rightarrow> char \<Rightarrow> nat option" where
  "indexOf s c = (if c \<in> set s then Some (length (takeWhile (\<lambda>x. x \<noteq> c) s)) else None)"

text \<open>\<^verbatim>\<open>toLowerCase\<close> on code units below 256: A to Z, and the Latin-1 capitals but U+00D7.\<close>

definition upper_chars :: "char list" where
  "upper_chars = ''ABCDEFGHIJKLMNOPQRSTUVWXYZ'' @
     [CHR 0xC0, CHR 0xC1, CHR 0xC2, CHR 0xC3, CHR 0xC4, CHR 0xC5, CHR 0xC6, CHR 0xC7,
      CHR 0xC8, CHR 0xC9, CHR 0xCA, CHR 0xCB, CHR 0xCC, CHR 0xCD, CHR 0xCE, CHR 0xCF,
      CHR 0xD0, CHR 0xD1, CHR 0xD2, CHR 0xD3, CHR 0xD4, CHR 0xD5, CHR 0xD6,
      CHR 0xD8, CHR 0xD9, CHR 0xDA, CHR 0xDB, CHR 0xDC, CHR 0xDD, CHR 0xDE]"

definition lower_chars :: "char list" where
  "lower_chars = ''abcdefghijklmnopqrstuvwxyz'' @
     [CHR 0xE0, CHR 0xE1, CHR 0xE2, CHR 0xE3, CHR 0xE4, CHR 0xE5, CHR 0xE6, CHR 0xE7,
      CHR 0xE8, CHR 0xE9, CHR 0xEA, CHR 0xEB, CHR 0xEC, CHR 0xED, CHR 0xEE, CHR 0xEF,
      CHR 0xF0, CHR 0xF1, CHR 0xF2, CHR 0xF3, CHR 0xF4, CHR 0xF5, CHR 0xF6,
      CHR 0xF8, CHR 0xF9, CHR 0xFA, CHR 0xFB, CHR 0xFC, CHR 0xFD, CHR 0xFE]"

definition lower_char :: "char \<Rightarrow> char" where
  "lower_char c = (case map_of (zip upper_chars lower_chars) c of Some d \<Rightarrow> d | None \<Rightarrow> c)"

definition toLowerCase :: "string \<Rightarrow> string" where
  "toLowerCase s = map lower_char s"

text \<open>
  A regular expression with the flag \<^verbatim>\<open>i\<close> and a pattern of ASCII letters and
  punctuation: a code unit matches a pattern letter when it is that letter in either case
  (no code unit above 127 is folded onto an ASCII letter). The pattern \<open>p\<close> is given in
  lower case.
\<close>

definition ascii_lower :: "char \<Rightarrow> char" where
  "ascii_lower c = (case map_of (zip (take 26 upper_chars) (take 26 lower_chars)) c of
     Some d \<Rightarrow> d | None \<Rightarrow> c)"

definition startsWith_ci :: "string \<Rightarrow> string \<Rightarrow> bool" where
  "startsWith_ci s p = (map ascii_lower (take (length p) s) = p)"

text \<open>\<^verbatim>\<open>input.split('\n')\<close>: always at least one line.\<close>

fun split_nl :: "string \<Rightarrow> string list" where
  "split_nl [] = [[]]"
| "split_nl (c # cs) =
     (if c = CHR 0x0A then [] # split_nl cs
      else (case split_nl cs of l # ls \<Rightarrow> (c # l) # ls | [] \<Rightarrow> [[c]]))"

text \<open>\<^verbatim>\<open>xs.join(sep)\<close>.\<close>

fun join :: "string \<Rightarrow> string list \<Rightarrow> string" where
  "join sep [] = []"
| "join sep [x] = x"
| "join sep (x # y # ys) = x @ sep @ join sep (y # ys)"

text \<open>
  \<^verbatim>\<open>s.replace(re, '')\<close> for a regular expression without the flag \<^verbatim>\<open>g\<close>: the leftmost
  match is removed. \<open>m\<close> gives the length of the match of \<^verbatim>\<open>re\<close> at the start of a
  suffix of the string, if there is one.
\<close>

fun replace_first :: "(string \<Rightarrow> nat option) \<Rightarrow> string \<Rightarrow> string" where
  "replace_first m [] = []"
| "replace_first m (c # cs) =
     (case m (c # cs) of Some n \<Rightarrow> drop n (c # cs) | None \<Rightarrow> c # replace_first m cs)"

text \<open>
  A greedy \<^verbatim>\<open>\s*\<close> (\<open>lo = 0\<close>), \<^verbatim>\<open>\s+\<close> (\<open>lo = 1\<close>) or \<^verbatim>\<open>\s{2,}\<close> (\<open>lo = 2\<close>) followed by the
  rest of the pattern \<open>cont\<close>: the longest run of white space is tried first, and one code
  unit is given back at a time while the rest of the pattern fails.
\<close>

fun backtrack_ws :: "(string \<Rightarrow> 'a option) \<Rightarrow> nat \<Rightarrow> nat \<Rightarrow> string \<Rightarrow> 'a option" where
  "backtrack_ws cont lo 0 s = (if lo = 0 then cont s else None)"
| "backtrack_ws cont lo (Suc k) s =
     (if Suc k < lo then None
      else (case cont (drop (Suc k) s) of Some r \<Rightarrow> Some r | None \<Rightarrow> backtrack_ws cont lo k s))"

definition greedy_ws :: "nat \<Rightarrow> (string \<Rightarrow> 'a option) \<Rightarrow> string \<Rightarrow> 'a option" where
  "greedy_ws lo cont s = backtrack_ws cont lo (length (takeWhile is_space s)) s"

text \<open>The tail \<^verbatim>\<open>(.+)$\<close> of a pattern: the rest of the string, not empty, no line terminator.\<close>

definition dot_plus_end :: "string \<Rightarrow> string option" where
  "dot_plus_end s = (if s \<noteq> [] \<and> list_all is_dot s then Some s else None)"

section \<open>The document model (\<^verbatim>\<open>types.ts\<close>)\<close>

datatype AspectRatio = Ratio_16_9 | Ratio_4_3

record PresentationMeta =
  title :: "string option"
  author :: "string option"
  date :: "string option"
  theme :: "string option"
  aspectRatio :: "AspectRatio option"
  accentColor :: "string option"
  fontFamily :: "string option"
  style :: "string option"

datatype ContentBlockType =
  Heading | Subheading | Text | Bullets | Numbered | Image_block | Code | Quote | Chart | Mindmap
  | StockImage | AiImage

datatype ChartType = Bar | Pie | Line

datatype ImageStyle = Photo | Illustration | Diagram

text \<open>
  The value of a chart item is the number \<^verbatim>\<open>parseFloat\<close> reads from a decimal numeral
  \<^verbatim>\<open>\d+(\.\d+)?\<close>. The model keeps the exact decimal value; JavaScript keeps the nearest
  double, which is the same number for every integer below \<open>2^53\<close>.
\<close>

record ChartItem =
  item_label :: string
  item_value :: rat

record ChartData =
  chart_type :: ChartType
  chart_title :: "string option"
  chart_items :: "ChartItem list"

record Branch =
  branch_label :: string
  children :: "string list option"

record MindMapData =
  center :: string
  branches :: "Branch list"

record ContentBlock =
  btype :: ContentBlockType
  content :: string
  items :: "string list option"
  level :: "nat option"
  language :: "string option"
  alt :: "string option"
  src :: "string option"
  resolvedSrc :: "string option"
  chartData :: "ChartData option"
  mindmapData :: "MindMapData option"
  imageQuery :: "string option"
  imageStyle :: "ImageStyle option"

datatype SlideLayout = Title | Section | Content | TwoColumn | ImageFull | Blank

record Slide =
  layout :: SlideLayout
  slide_title :: "string option"
  subtitle :: "string option"
  blocks :: "ContentBlock list"
  slide_notes :: "string option"
  background :: "string option"

record Presentation =
  meta :: PresentationMeta
  slides :: "Slide list"

text \<open>A block with the two mandatory fields; every optional field is absent.\<close>

definition block :: "ContentBlockType \<Rightarrow> string \<Rightarrow> ContentBlock" where
  "block t c = \<lparr>btype = t, content = c, items = None, level = None, language = None,
     alt = None, src = None, resolvedSrc = None, chartData = None, mindmapData = None,
     imageQuery = None, imageStyle = None\<rparr>"

text \<open>JavaScript truthiness of an optional string: present and not empty.\<close>

definition truthy :: "string option \<Rightarrow> bool" where
  "truthy x = (case x of None \<Rightarrow> False | Some s \<Rightarrow> s \<noteq> [])"

text \<open>\<^verbatim>\<open>s || undefined\<close>.\<close>

definition or_undefined :: "string \<Rightarrow> string option" where
  "or_undefined s = (if s = [] then None else Some s)"

section \<open>Frontmatter (\<^verbatim>\<open>parseFrontmatter\<close>)\<close>

text \<open>
  \<^verbatim>\<open>value.replace(/^["']|["']$/g, '')\<close>: a quote at the start is removed, and a quote
  at the end of what is left is removed.
\<close>

definition is_quote :: "char \<Rightarrow> bool" where
  "is_quote c = (c = CHR 0x22 \<or> c = CHR 0x27)"

definition strip_quotes :: "string \<Rightarrow> string" where
  "strip_quotes s =
     (let s1 = (case s of [] \<Rightarrow> [] | c # cs \<Rightarrow> if is_quote c then cs else s)
      in if s1 \<noteq> [] \<and> is_quote (last s1) then butlast s1 else s1)"

text \<open>The key and the value of an interior line, as the loop body computes them from the
  trimmed line; \<open>None\<close> for a line the loop skips (blank, starting with \<^verbatim>\<open>#\<close>, or
  without a colon).\<close>

definition frontmatter_key_value :: "string \<Rightarrow> (string \<times> string) option" where
  "frontmatter_key_value raw =
     (let line = trim raw in
      if line = [] \<or> startsWith line ''#'' then None
      else (case indexOf line CHR '':'' of
              None \<Rightarrow> None
            | Some colonIdx \<Rightarrow>
                Some (toLowerCase (trim (take colonIdx line)),
                      strip_quotes (trim (drop (colonIdx + 1) line)))))"

text \<open>The \<^verbatim>\<open>switch (key)\<close> of the loop body.\<close>

definition frontmatter_switch :: "string \<Rightarrow> string \<Rightarrow> PresentationMeta \<Rightarrow> PresentationMeta" where
  "frontmatter_switch key v m =
     (if key = ''title'' then m\<lparr>title := Some v\<rparr>
      else if key = ''author'' then m\<lparr>author := Some v\<rparr>
      else if key = ''date'' then m\<lparr>date := Some v\<rparr>
      else if key = ''theme'' then m\<lparr>theme := Some v\<rparr>
      else if key = ''aspect-ratio'' \<or> key = ''aspectratio'' then
        (if v = ''4:3'' then m\<lparr>aspectRatio := Some Ratio_4_3\<rparr>
         else if v = ''16:9'' then m\<lparr>aspectRatio := Some Ratio_16_9\<rparr>
         else m)
      else if key = ''accent-color'' \<or> key = ''accentcolor'' \<or> key = ''color'' then
        m\<lparr>accentColor := Some v\<rparr>
      else if key = ''font'' \<or> key = ''font-family'' \<or> key = ''fontfamily'' then
        m\<lparr>fontFamily := Some v\<rparr>
      else if key = ''style'' then m\<lparr>style := Some v\<rparr>
      else m)"

definition frontmatter_line :: "PresentationMeta \<Rightarrow> string \<Rightarrow> PresentationMeta" where
  "frontmatter_line m raw =
     (case frontmatter_key_value raw of None \<Rightarrow> m | Some (key, v) \<Rightarrow> frontmatter_switch key v m)"

definition initial_meta :: PresentationMeta where
  "initial_meta = \<lparr>title = None, author = None, date = None, theme = None,
     aspectRatio = Some Ratio_16_9, accentColor = None, fontFamily = None, style = None\<rparr>"

text \<open>The index of the closing rule: the first \<open>i \<ge> 1\<close> whose trimmed line is \<^verbatim>\<open>---\<close>.\<close>

definition find_closing :: "string list \<Rightarrow> nat option" where
  "find_closing lines =
     (case filter (\<lambda>i. trim (lines ! i) = ''---'') [1 ..< length lines] of
        [] \<Rightarrow> None | i # _ \<Rightarrow> Some i)"

definition parseFrontmatter :: "string list \<Rightarrow> PresentationMeta \<times> nat" where
  "parseFrontmatter lines =
     (if length lines < 2 \<or> trim (lines ! 0) \<noteq> ''---'' then (initial_meta, 0)
      else (case find_closing lines of
              None \<Rightarrow> (initial_meta, 0)
            | Some endIndex \<Rightarrow>
                (foldl frontmatter_line initial_meta (map (\<lambda>i. lines ! i) [1 ..< endIndex]),
                 endIndex + 1)))"

section \<open>Slide segmentation (\<^verbatim>\<open>splitIntoSlides\<close>)\<close>

text \<open>\<^verbatim>\<open>/^```/\<close>, tested on a trimmed line.\<close>

definition is_fence :: "string \<Rightarrow> bool" where
  "is_fence t = startsWith t ''```''"

text \<open>\<^verbatim>\<open>/^-{3,}\s*$/\<close>: three dashes or more, then white space only.\<close>

definition is_separator :: "string \<Rightarrow> bool" where
  "is_separator l =
     (3 \<le> length (takeWhile (\<lambda>c. c = CHR ''-'') l) \<and>
      list_all is_space (dropWhile (\<lambda>c. c = CHR ''-'') l))"

definition isInsideCodeBlock :: "string list \<Rightarrow> bool" where
  "isInsideCodeBlock lines = (length (filter (\<lambda>line. is_fence (trim line)) lines) mod 2 = 1)"

text \<open>One iteration of the loop of \<^verbatim>\<open>splitIntoSlides\<close>, on the state
  \<open>(chunks, current)\<close>.\<close>

definition split_step :: "string list list \<times> string list \<Rightarrow> string \<Rightarrow> string list list \<times> string list" where
  "split_step st line =
     (case st of (chunks, current) \<Rightarrow>
        if is_separator line \<and> \<not> isInsideCodeBlock current then
          (if current \<noteq> [] \<or> chunks = [] then (chunks @ [current], []) else (chunks, current))
        else (chunks, current @ [line]))"

definition split_loop :: "string list \<Rightarrow> string list list \<times> string list" where
  "split_loop body = foldl split_step ([], []) body"

text \<open>The chunks before the final filter.\<close>

definition segment :: "string list \<Rightarrow> nat \<Rightarrow> string list list" where
  "segment lines startIndex =
     (case split_loop (drop startIndex lines) of (chunks, current) \<Rightarrow>
        if current \<noteq> [] then chunks @ [current] else chunks)"

definition has_content :: "string list \<Rightarrow> bool" where
  "has_content chunk = list_ex (\<lambda>line. trim line \<noteq> []) chunk"

definition splitIntoSlides :: "string list \<Rightarrow> nat \<Rightarrow> string list list" where
  "splitIntoSlides lines startIndex = filter has_content (segment lines startIndex)"

section \<open>The line patterns of the block parsers\<close>

text \<open>\<^verbatim>\<open>\s+\<close> matches at the start of the string.\<close>

definition starts_ws :: "string \<Rightarrow> bool" where
  "starts_ws s = (case s of [] \<Rightarrow> False | c # _ \<Rightarrow> is_space c)"

text \<open>\<^verbatim>\<open>/^#\s+/\<close>, \<^verbatim>\<open>/^##\s+/\<close> and \<^verbatim>\<open>/^###\s+/\<close> (\<open>k\<close> is the number of \<^verbatim>\<open>#\<close>), as a test
  and as \<^verbatim>\<open>replace(re, '')\<close>.\<close>

definition test_heading :: "nat \<Rightarrow> string \<Rightarrow> bool" where
  "test_heading k t = (startsWith t (replicate k CHR ''#'') \<and> starts_ws (drop k t))"

definition strip_heading :: "nat \<Rightarrow> string \<Rightarrow> string" where
  "strip_heading k t = (if test_heading k t then dropWhile is_space (drop k t) else t)"

text \<open>\<^verbatim>\<open>/^```/\<close> removed, and the closing fence \<^verbatim>\<open>/^```\s*$/\<close>.\<close>

definition strip_fence :: "string \<Rightarrow> string" where
  "strip_fence t = (if is_fence t then drop 3 t else t)"

definition is_close_fence :: "string \<Rightarrow> bool" where
  "is_close_fence t = (is_fence t \<and> list_all is_space (drop 3 t))"

text \<open>\<^verbatim>\<open>/^>\s+/\<close> (dispatcher and paragraph), \<^verbatim>\<open>/^>\s*/\<close> (blockquote loop).\<close>

definition test_quote :: "string \<Rightarrow> bool" where
  "test_quote t = (case t of [] \<Rightarrow> False | c # cs \<Rightarrow> c = CHR ''>'' \<and> starts_ws cs)"

definition test_quote_loose :: "string \<Rightarrow> bool" where
  "test_quote_loose t = startsWith t ''>''"

definition strip_quote :: "string \<Rightarrow> string" where
  "strip_quote t = (if test_quote_loose t then dropWhile is_space (drop 1 t) else t)"

text \<open>\<^verbatim>\<open>/^[-*]\s+/\<close>, \<^verbatim>\<open>/^\s+[-*]\s+/\<close> and \<^verbatim>\<open>/^\s*[-*]\s+/\<close>.\<close>

definition test_bullet :: "string \<Rightarrow> bool" where
  "test_bullet t =
     (case t of [] \<Rightarrow> False | c # cs \<Rightarrow> (c = CHR ''-'' \<or> c = CHR ''*'') \<and> starts_ws cs)"

definition strip_bullet :: "string \<Rightarrow> string" where
  "strip_bullet t = (if test_bullet t then dropWhile is_space (drop 1 t) else t)"

definition test_indented_bullet :: "string \<Rightarrow> bool" where
  "test_indented_bullet l = (starts_ws l \<and> test_bullet (dropWhile is_space l))"

definition test_any_bullet :: "string \<Rightarrow> bool" where
  "test_any_bullet l = test_bullet (dropWhile is_space l)"

text \<open>\<^verbatim>\<open>/^\d+\.\s+/\<close>.\<close>

definition test_numbered :: "string \<Rightarrow> bool" where
  "test_numbered t =
     (takeWhile is_digit t \<noteq> [] \<and>
      (case dropWhile is_digit t of [] \<Rightarrow> False | c # cs \<Rightarrow> c = CHR ''.'' \<and> starts_ws cs))"

definition strip_numbered :: "string \<Rightarrow> string" where
  "strip_numbered t =
     (if test_numbered t then dropWhile is_space (drop 1 (dropWhile is_digit t)) else t)"

text \<open>
  The image patterns. \<open>until_paren\<close> is \<^verbatim>\<open>([^)]*)\)\<close>, \<open>bracket_tail\<close> is
  \<^verbatim>\<open>\]\(([^)]*)\)\<close>, and \<open>lazy_dot cont\<close> is \<^verbatim>\<open>(.+?)\<close> followed by the pattern \<open>cont\<close>: the
  shortest run of one or more code units that are not line terminators after which
  \<open>cont\<close> matches.
\<close>

definition until_paren :: "string \<Rightarrow> string option" where
  "until_paren s =
     (if CHR '')'' \<in> set s then Some (takeWhile (\<lambda>c. c \<noteq> CHR '')'') s) else None)"

definition bracket_tail :: "string \<Rightarrow> string option" where
  "bracket_tail s = (if startsWith s '']('' then until_paren (drop 2 s) else None)"

fun lazy_dot :: "(string \<Rightarrow> 'a option) \<Rightarrow> string \<Rightarrow> string \<Rightarrow> (string \<times> 'a) option" where
  "lazy_dot cont acc [] = None"
| "lazy_dot cont acc (c # cs) =
     (if is_dot c then
        (case cont cs of Some r \<Rightarrow> Some (acc @ [c], r) | None \<Rightarrow> lazy_dot cont (acc @ [c]) cs)
      else None)"

text \<open>\<^verbatim>\<open>/^!\[stock:\s*(.+?)\]\(([^)]*)\)/\<close>: the groups 1 and 2.\<close>

definition stockMatch :: "string \<Rightarrow> (string \<times> string) option" where
  "stockMatch t =
     (if startsWith t ''![stock:'' then greedy_ws 0 (lazy_dot bracket_tail []) (drop 8 t)
      else None)"

text \<open>\<^verbatim>\<open>/^!\[ai-(photo|illustration|diagram):\s*(.+?)\]\(([^)]*)\)/\<close>: the groups 1, 2
  and 3.\<close>

definition aiMatch :: "string \<Rightarrow> (ImageStyle \<times> string \<times> string) option" where
  "aiMatch t =
     (if startsWith t ''![ai-photo:'' then
        map_option (Pair Photo) (greedy_ws 0 (lazy_dot bracket_tail []) (drop 11 t))
      else if startsWith t ''![ai-illustration:'' then
        map_option (Pair Illustration) (greedy_ws 0 (lazy_dot bracket_tail []) (drop 18 t))
      else if startsWith t ''![ai-diagram:'' then
        map_option (Pair Diagram) (greedy_ws 0 (lazy_dot bracket_tail []) (drop 13 t))
      else None)"

text \<open>\<^verbatim>\<open>/^!\[([^\]]*)\]\(([^)]*)\)/\<close>: the groups 1 and 2.\<close>

definition imgMatch :: "string \<Rightarrow> (string \<times> string) option" where
  "imgMatch t =
     (if startsWith t ''!['' then
        map_option (Pair (takeWhile (\<lambda>c. c \<noteq> CHR '']'') (drop 2 t)))
          (bracket_tail (dropWhile (\<lambda>c. c \<noteq> CHR '']'') (drop 2 t)))
      else None)"

text \<open>
  The comment patterns, as the length of the match at the start of a string:
  \<^verbatim>\<open>/<!--\s*notes:\s*/\<close> and \<^verbatim>\<open>/<!--\s*bg:\s*/\<close> (\<open>word\<close> is \<^verbatim>\<open>notes:\<close> or \<^verbatim>\<open>bg:\<close>), and
  \<^verbatim>\<open>/\s*-->/\<close>.
\<close>

definition m_open :: "string \<Rightarrow> string \<Rightarrow> nat option" where
  "m_open word s =
     (if startsWith s ''<!--'' \<and> startsWith (dropWhile is_space (drop 4 s)) word then
        Some (length s -
              length (dropWhile is_space (drop (length word) (dropWhile is_space (drop 4 s)))))
      else None)"

definition m_close :: "string \<Rightarrow> nat option" where
  "m_close s =
     (if startsWith (dropWhile is_space s) ''-->'' then
        Some (length s - length (dropWhile is_space s) + 3)
      else None)"

section \<open>The chart mini-language (\<^verbatim>\<open>parseChartData\<close>)\<close>

text \<open>\<^verbatim>\<open>/^type:\s*(bar|pie|line)$/i\<close>, with \<^verbatim>\<open>typeMatch[1].toLowerCase()\<close> read as a chart
  type.\<close>

definition typeMatch :: "string \<Rightarrow> ChartType option" where
  "typeMatch t =
     (if startsWith_ci t ''type:'' then
        (let w = map ascii_lower (dropWhile is_space (drop 5 t))
         in if w = ''bar'' then Some Bar else if w = ''pie'' then Some Pie
            else if w = ''line'' then Some Line else None)
      else None)"

text \<open>\<^verbatim>\<open>/^title:\s*(.+)$/i\<close>: the group 1.\<close>

definition titleMatch :: "string \<Rightarrow> string option" where
  "titleMatch t = (if startsWith_ci t ''title:'' then greedy_ws 0 dot_plus_end (drop 6 t) else None)"

text \<open>\<^verbatim>\<open>(\d+(?:\.\d+)?)$\<close>: the integer digits and the fraction digits of the numeral that
  ends the string.\<close>

definition number_end :: "string \<Rightarrow> (string \<times> string) option" where
  "number_end r =
     (if takeWhile is_digit r = [] then None
      else (case dropWhile is_digit r of
              [] \<Rightarrow> Some (takeWhile is_digit r, [])
            | c # r2 \<Rightarrow>
                if c = CHR ''.'' \<and> r2 \<noteq> [] \<and> list_all is_digit r2
                then Some (takeWhile is_digit r, r2) else None))"

text \<open>\<^verbatim>\<open>/^(.+?):\s*(\d+(?:\.\d+)?)$/\<close>: the group 1, and the digits of the group 2.\<close>

definition colon_number :: "string \<Rightarrow> (string \<times> string) option" where
  "colon_number s =
     (case s of [] \<Rightarrow> None
      | c # r \<Rightarrow> if c = CHR '':'' then number_end (dropWhile is_space r) else None)"

definition dataMatch :: "string \<Rightarrow> (string \<times> string \<times> string) option" where
  "dataMatch t = lazy_dot colon_number [] t"

definition digit_val :: "char \<Rightarrow> nat" where
  "digit_val c = length (takeWhile (\<lambda>d. d \<noteq> c) ''0123456789'')"

definition digits_val :: "string \<Rightarrow> nat" where
  "digits_val ds = foldl (\<lambda>a c. 10 * a + digit_val c) 0 ds"

definition parseFloat :: "string \<times> string \<Rightarrow> rat" where
  "parseFloat n = (case n of (ip, fp) \<Rightarrow> of_nat (digits_val (ip @ fp)) / 10 ^ length fp)"

text \<open>The body of the loop over the lines, on the state \<open>(type, title, items)\<close>.\<close>

definition chart_line :: "ChartData \<Rightarrow> string \<Rightarrow> ChartData" where
  "chart_line d line =
     (let trimmed = trim line in
      if trimmed = [] then d
      else (case typeMatch trimmed of
              Some k \<Rightarrow> d\<lparr>chart_type := k\<rparr>
            | None \<Rightarrow>
               (case titleMatch trimmed of
                  Some g \<Rightarrow> d\<lparr>chart_title := Some (trim g)\<rparr>
                | None \<Rightarrow>
                   (case dataMatch trimmed of
                      Some (l, n) \<Rightarrow>
                        d\<lparr>chart_items := chart_items d @
                             [\<lparr>item_label = trim l, item_value = parseFloat n\<rparr>]\<rparr>
                    | None \<Rightarrow> d))))"

definition parseChartData :: "string list \<Rightarrow> ChartData" where
  "parseChartData lines =
     foldl chart_line \<lparr>chart_type = Bar, chart_title = None, chart_items = []\<rparr> lines"

section \<open>The mind map mini-language (\<^verbatim>\<open>parseMindMapData\<close>)\<close>

text \<open>\<^verbatim>\<open>/^center:\s*(.+)$/i\<close> on the trimmed line; \<^verbatim>\<open>/^-\s+(.+)$/\<close> and
  \<^verbatim>\<open>/^\s{2,}-\s+(.+)$/\<close> on the line as it is: the group 1 of each.\<close>

definition centerMatch :: "string \<Rightarrow> string option" where
  "centerMatch t =
     (if startsWith_ci t ''center:'' then greedy_ws 0 dot_plus_end (drop 7 t) else None)"

definition branchMatch :: "string \<Rightarrow> string option" where
  "branchMatch line =
     (case line of [] \<Rightarrow> None
      | c # r \<Rightarrow> if c = CHR ''-'' then greedy_ws 1 dot_plus_end r else None)"

definition childMatch :: "string \<Rightarrow> string option" where
  "childMatch line =
     (if 2 \<le> length (takeWhile is_space line) then branchMatch (dropWhile is_space line)
      else None)"

text \<open>\<^verbatim>\<open>lastBranch.children.push(c)\<close>, after \<^verbatim>\<open>if (!lastBranch.children)
  lastBranch.children = []\<close>.\<close>

definition push_child :: "string \<Rightarrow> Branch \<Rightarrow> Branch" where
  "push_child c b =
     b\<lparr>children := Some ((case children b of None \<Rightarrow> [] | Some cs \<Rightarrow> cs) @ [c])\<rparr>"

text \<open>The body of the loop over the lines, on the state \<open>(center, branches)\<close>.\<close>

definition mindmap_line :: "MindMapData \<Rightarrow> string \<Rightarrow> MindMapData" where
  "mindmap_line d line =
     (let trimmed = trim line in
      if trimmed = [] then d
      else (case centerMatch trimmed of
              Some g \<Rightarrow> d\<lparr>center := trim g\<rparr>
            | None \<Rightarrow>
               (case branchMatch line of
                  Some g \<Rightarrow>
                    d\<lparr>branches := branches d @ [\<lparr>branch_label = trim g, children = Some []\<rparr>]\<rparr>
                | None \<Rightarrow>
                   (case childMatch line of
                      Some g \<Rightarrow>
                        if branches d \<noteq> [] then
                          d\<lparr>branches := butlast (branches d) @ [push_child (trim g) (last (branches d))]\<rparr>
                        else d
                    | None \<Rightarrow> d))))"

definition parseMindMapData :: "string list \<Rightarrow> MindMapData" where
  "parseMindMapData lines = foldl mindmap_line \<lparr>center = ''Topic'', branches = []\<rparr> lines"

section \<open>The block parsers\<close>

text \<open>
  Each block parser takes the lines of the chunk and the index of its first line, and
  returns its result with \<^verbatim>\<open>endIndex\<close>, the index of the last line it consumed. That
  index is an \<^typ>\<open>int\<close>: it is \<open>startIndex - 1\<close> when the parser consumed nothing, which
  is \<open>-1\<close> at the first line. The new line feed of the source is \<open>CHR 0x0A\<close>.
\<close>

subsection \<open>\<^verbatim>\<open>extractNotes\<close>\<close>

function notes_loop :: "string list \<Rightarrow> nat \<Rightarrow> string \<Rightarrow> string \<times> int" where
  "notes_loop lines i text =
     (if i < length lines then
        (if includes_str (trim (lines ! i)) ''-->'' then
           (trim (text @ [CHR 0x0A] @ trim (replace_first m_close (trim (lines ! i)))), int i)
         else notes_loop lines (i + 1) (text @ [CHR 0x0A] @ trim (lines ! i)))
      else (trim text, int i - 1))"
  by pat_completeness auto
termination
  by (relation "measure (\<lambda>(lines, i, text). length lines - i)") auto

declare notes_loop.simps [simp del]

definition extractNotes :: "string list \<Rightarrow> nat \<Rightarrow> string \<times> int" where
  "extractNotes lines startIndex =
     (let singleLine = trim (lines ! startIndex) in
      if includes_str singleLine ''-->'' then
        (trim (replace_first m_close (replace_first (m_open ''notes:'') singleLine)),
         int startIndex)
      else notes_loop lines (startIndex + 1)
             (trim (replace_first (m_open ''notes:'') singleLine)))"

subsection \<open>\<^verbatim>\<open>parseCodeBlock\<close>\<close>

function code_loop :: "string list \<Rightarrow> nat \<Rightarrow> string list \<Rightarrow> string list \<times> int" where
  "code_loop lines i codeLines =
     (if i < length lines then
        (if is_close_fence (trim (lines ! i)) then (codeLines, int i)
         else code_loop lines (i + 1) (codeLines @ [lines ! i]))
      else (codeLines, int i - 1))"
  by pat_completeness auto
termination
  by (relation "measure (\<lambda>(lines, i, codeLines). length lines - i)") auto

declare code_loop.simps [simp del]

definition parseCodeBlock :: "string list \<Rightarrow> nat \<Rightarrow> ContentBlock \<times> int" where
  "parseCodeBlock lines startIndex =
     (case code_loop lines (startIndex + 1) [] of (codeLines, endIndex) \<Rightarrow>
        ((block Code (join [CHR 0x0A] codeLines))
           \<lparr>language := or_undefined (trim (strip_fence (trim (lines ! startIndex))))\<rparr>,
         endIndex))"

subsection \<open>\<^verbatim>\<open>parseBlockquote\<close>\<close>

function quote_loop :: "string list \<Rightarrow> nat \<Rightarrow> string list \<Rightarrow> string list \<times> int" where
  "quote_loop lines i quoteLines =
     (if i < length lines \<and> test_quote_loose (trim (lines ! i)) then
        quote_loop lines (i + 1) (quoteLines @ [strip_quote (trim (lines ! i))])
      else (quoteLines, int i - 1))"
  by pat_completeness auto
termination
  by (relation "measure (\<lambda>(lines, i, quoteLines). length lines - i)") auto

declare quote_loop.simps [simp del]

definition parseBlockquote :: "string list \<Rightarrow> nat \<Rightarrow> ContentBlock \<times> int" where
  "parseBlockquote lines startIndex =
     (case quote_loop lines startIndex [] of (quoteLines, endIndex) \<Rightarrow>
        (block Quote (join [CHR 0x0A] quoteLines), endIndex))"

subsection \<open>\<^verbatim>\<open>parseBulletList\<close>\<close>

function bullet_loop :: "string list \<Rightarrow> nat \<Rightarrow> string list \<Rightarrow> string list \<times> int" where
  "bullet_loop lines i its =
     (if i < length lines then
        (if test_bullet (trim (lines ! i)) then
           bullet_loop lines (i + 1) (its @ [strip_bullet (trim (lines ! i))])
         else if test_indented_bullet (lines ! i) \<and> 0 < length its then
           bullet_loop lines (i + 1) (its @ [''  '' @ strip_bullet (trim (lines ! i))])
         else if trim (lines ! i) = [] \<and> i + 1 < length lines
                 \<and> test_any_bullet (lines ! (i + 1)) then
           bullet_loop lines (i + 1) its
         else (its, int i - 1))
      else (its, int i - 1))"
  by pat_completeness auto
termination
  by (relation "measure (\<lambda>(lines, i, its). length lines - i)") auto

declare bullet_loop.simps [simp del]

definition parseBulletList :: "string list \<Rightarrow> nat \<Rightarrow> ContentBlock \<times> int" where
  "parseBulletList lines startIndex =
     (case bullet_loop lines startIndex [] of (its, endIndex) \<Rightarrow>
        ((block Bullets (join [CHR 0x0A] its))\<lparr>items := Some its\<rparr>, endIndex))"

subsection \<open>\<^verbatim>\<open>parseNumberedList\<close>\<close>

function numbered_loop :: "string list \<Rightarrow> nat \<Rightarrow> string list \<Rightarrow> string list \<times> int" where
  "numbered_loop lines i its =
     (if i < length lines then
        (if test_numbered (trim (lines ! i)) then
           numbered_loop lines (i + 1) (its @ [strip_numbered (trim (lines ! i))])
         else if trim (lines ! i) = [] \<and> i + 1 < length lines
                 \<and> test_numbered (trim (lines ! (i + 1))) then
           numbered_loop lines (i + 1) its
         else (its, int i - 1))
      else (its, int i - 1))"
  by pat_completeness auto
termination
  by (relation "measure (\<lambda>(lines, i, its). length lines - i)") auto

declare numbered_loop.simps [simp del]

definition parseNumberedList :: "string list \<Rightarrow> nat \<Rightarrow> ContentBlock \<times> int" where
  "parseNumberedList lines startIndex =
     (case numbered_loop lines startIndex [] of (its, endIndex) \<Rightarrow>
        ((block Numbered (join [CHR 0x0A] its))\<lparr>items := Some its\<rparr>, endIndex))"

subsection \<open>\<^verbatim>\<open>parseParagraph\<close>\<close>

text \<open>The lines at which a paragraph stops; the last pattern is \<^verbatim>\<open>/^-{3,}\s*$/\<close> on the
  trimmed line.\<close>

definition paragraph_stop :: "string \<Rightarrow> bool" where
  "paragraph_stop trimmed =
     (trimmed = [] \<or>
      (test_heading 1 trimmed \<or> test_heading 2 trimmed \<or> test_heading 3 trimmed) \<or>
      test_bullet trimmed \<or>
      test_numbered trimmed \<or>
      is_fence trimmed \<or>
      test_quote trimmed \<or>
      startsWith trimmed ''!['' \<or>
      startsWith trimmed ''<!--'' \<or>
      is_separator trimmed)"

function para_loop :: "string list \<Rightarrow> nat \<Rightarrow> string list \<Rightarrow> string list \<times> int" where
  "para_loop lines i paraLines =
     (if i < length lines then
        (if paragraph_stop (trim (lines ! i)) then (paraLines, int i - 1)
         else para_loop lines (i + 1) (paraLines @ [trim (lines ! i)]))
      else (paraLines, int i - 1))"
  by pat_completeness auto
termination
  by (relation "measure (\<lambda>(lines, i, paraLines). length lines - i)") auto

declare para_loop.simps [simp del]

definition parseParagraph :: "string list \<Rightarrow> nat \<Rightarrow> ContentBlock \<times> int" where
  "parseParagraph lines startIndex =
     (case para_loop lines startIndex [] of (paraLines, endIndex) \<Rightarrow>
        (block Text (join '' '' paraLines), endIndex))"

subsection \<open>\<^verbatim>\<open>parseChartBlock\<close> and \<^verbatim>\<open>parseMindMapBlock\<close>\<close>

text \<open>The two functions collect the lines of the fence with the same loop; here
  \<^verbatim>\<open>endIndex\<close> is the index of the closing fence, or the number of lines when the fence is
  not closed.\<close>

function data_loop :: "string list \<Rightarrow> nat \<Rightarrow> string list \<Rightarrow> string list \<times> int" where
  "data_loop lines i dataLines =
     (if i < length lines then
        (if is_close_fence (trim (lines ! i)) then (dataLines, int i)
         else data_loop lines (i + 1) (dataLines @ [lines ! i]))
      else (dataLines, int i))"
  by pat_completeness auto
termination
  by (relation "measure (\<lambda>(lines, i, dataLines). length lines - i)") auto

declare data_loop.simps [simp del]

definition parseChartBlock :: "string list \<Rightarrow> nat \<Rightarrow> ContentBlock \<times> int" where
  "parseChartBlock lines startIndex =
     (case data_loop lines (startIndex + 1) [] of (dataLines, endIndex) \<Rightarrow>
        ((block Chart (join [CHR 0x0A] dataLines))
           \<lparr>chartData := Some (parseChartData dataLines)\<rparr>,
         endIndex))"

definition parseMindMapBlock :: "string list \<Rightarrow> nat \<Rightarrow> ContentBlock \<times> int" where
  "parseMindMapBlock lines startIndex =
     (case data_loop lines (startIndex + 1) [] of (dataLines, endIndex) \<Rightarrow>
        ((block Mindmap (join [CHR 0x0A] dataLines))
           \<lparr>mindmapData := Some (parseMindMapData dataLines)\<rparr>,
         endIndex))"

section \<open>Layout inference (\<^verbatim>\<open>inferLayout\<close>)\<close>

definition inferLayout ::
  "string option \<Rightarrow> string option \<Rightarrow> ContentBlock list \<Rightarrow> bool \<Rightarrow> SlideLayout" where
  "inferLayout title' subtitle' blocks' isFirstSlide =
     (let hasOnlyImageBlock = (length blocks' = 1 \<and> btype (blocks' ! 0) = Image_block) in
      if hasOnlyImageBlock \<and> \<not> truthy title' then ImageFull
      else if isFirstSlide \<and> length blocks' = 0 then Title
      else if truthy title' \<and> length blocks' = 0 then Section
      else Content)"

section \<open>The dispatcher (\<^verbatim>\<open>parseSlide\<close>)\<close>

text \<open>The variables of \<^verbatim>\<open>parseSlide\<close>: the blocks pushed so far, the four optional
  strings, and the cursor \<open>i\<close>.\<close>

record SlideState =
  st_blocks :: "ContentBlock list"
  st_title :: "string option"
  st_subtitle :: "string option"
  st_notes :: "string option"
  st_background :: "string option"
  st_i :: nat

text \<open>\<^verbatim>\<open>blocks.push(r.block); i = r.endIndex + 1\<close> for the result \<open>r\<close> of a block parser.\<close>

definition push_result :: "SlideState \<Rightarrow> ContentBlock \<times> int \<Rightarrow> SlideState" where
  "push_result st r =
     (case r of (b, endIndex) \<Rightarrow> st\<lparr>st_blocks := st_blocks st @ [b], st_i := nat (endIndex + 1)\<rparr>)"

text \<open>\<^verbatim>\<open>blocks.push(b); i++\<close>.\<close>

definition push_block :: "SlideState \<Rightarrow> ContentBlock \<Rightarrow> SlideState" where
  "push_block st b = st\<lparr>st_blocks := st_blocks st @ [b], st_i := st_i st + 1\<rparr>"

text \<open>The body of the main loop from the image directives on: stock image, AI image,
  plain image, blockquote, bullet list, numbered list, and the paragraph as the last
  case.\<close>

definition dispatch_tail :: "string list \<Rightarrow> SlideState \<Rightarrow> string \<Rightarrow> SlideState" where
  "dispatch_tail lines st trimmed =
     (case stockMatch trimmed of
        Some (q, orient) \<Rightarrow>
          push_block st ((block StockImage q)
            \<lparr>imageQuery := Some q, alt := Some q, src := or_undefined orient\<rparr>)
      | None \<Rightarrow>
         (case aiMatch trimmed of
            Some (sty, prompt, rest) \<Rightarrow>
              push_block st ((block AiImage prompt)\<lparr>imageStyle := Some sty, alt := Some prompt\<rparr>)
          | None \<Rightarrow>
             (case imgMatch trimmed of
                Some (a, target) \<Rightarrow>
                  push_block st ((block Image_block target)\<lparr>alt := Some a, src := or_undefined target\<rparr>)
              | None \<Rightarrow>
                  if test_quote trimmed then push_result st (parseBlockquote lines (st_i st))
                  else if test_bullet trimmed then push_result st (parseBulletList lines (st_i st))
                  else if test_numbered trimmed then
                    push_result st (parseNumberedList lines (st_i st))
                  else push_result st (parseParagraph lines (st_i st)))))"

text \<open>The branch of the main loop for a line that opens a fence.\<close>

definition dispatch_fence :: "string list \<Rightarrow> SlideState \<Rightarrow> string \<Rightarrow> SlideState" where
  "dispatch_fence lines st trimmed =
     (let lang = toLowerCase (trim (strip_fence trimmed)) in
      if lang = ''chart'' then push_result st (parseChartBlock lines (st_i st))
      else if lang = ''mindmap'' then push_result st (parseMindMapBlock lines (st_i st))
      else push_result st (parseCodeBlock lines (st_i st)))"

text \<open>One iteration of the main loop, for a cursor inside the chunk.\<close>

definition parseSlide_step :: "string list \<Rightarrow> SlideState \<Rightarrow> SlideState" where
  "parseSlide_step lines st =
     (let trimmed = trim (lines ! st_i st) in
      if trimmed = [] then st\<lparr>st_i := st_i st + 1\<rparr>
      else if startsWith trimmed ''<!-- notes:'' \<or> startsWith trimmed ''<!--notes:'' then
        (case extractNotes lines (st_i st) of (text, endIndex) \<Rightarrow>
           st\<lparr>st_notes := Some text, st_i := nat (endIndex + 1)\<rparr>)
      else if startsWith trimmed ''<!-- bg:'' \<or> startsWith trimmed ''<!--bg:'' then
        st\<lparr>st_background :=
             Some (trim (replace_first m_close (replace_first (m_open ''bg:'') trimmed))),
           st_i := st_i st + 1\<rparr>
      else if test_heading 1 trimmed \<and> \<not> truthy (st_title st) then
        st\<lparr>st_title := Some (strip_heading 1 trimmed), st_i := st_i st + 1\<rparr>
      else if test_heading 1 trimmed \<and> truthy (st_title st) then
        push_block st ((block Heading (strip_heading 1 trimmed))\<lparr>level := Some 1\<rparr>)
      else if test_heading 2 trimmed then
        (if \<not> truthy (st_title st) then
           st\<lparr>st_title := Some (strip_heading 2 trimmed), st_i := st_i st + 1\<rparr>
         else if \<not> truthy (st_subtitle st) then
           st\<lparr>st_subtitle := Some (strip_heading 2 trimmed), st_i := st_i st + 1\<rparr>
         else push_block st ((block Subheading (strip_heading 2 trimmed))\<lparr>level := Some 2\<rparr>))
      else if test_heading 3 trimmed then
        push_block st ((block Subheading (strip_heading 3 trimmed))\<lparr>level := Some 3\<rparr>)
      else if is_fence trimmed then dispatch_fence lines st trimmed
      else dispatch_tail lines st trimmed)"

text \<open>
  The main loop \<^verbatim>\<open>while (i < lines.length)\<close>. Nothing in the source bounds the number
  of its iterations, so the model counts them: \<open>fuel\<close> is the number of iterations
  allowed, and \<open>None\<close> is a loop that is still running when they are used up.
\<close>

fun parseSlide_loop :: "nat \<Rightarrow> string list \<Rightarrow> SlideState \<Rightarrow> SlideState option" where
  "parseSlide_loop fuel lines st =
     (if st_i st < length lines then
        (case fuel of 0 \<Rightarrow> None | Suc f \<Rightarrow> parseSlide_loop f lines (parseSlide_step lines st))
      else Some st)"

declare parseSlide_loop.simps [simp del]

definition initial_state :: "string list \<Rightarrow> SlideState" where
  "initial_state lines =
     \<lparr>st_blocks = [], st_title = None, st_subtitle = None, st_notes = None,
      st_background = None, st_i = length (takeWhile (\<lambda>l. trim l = []) lines)\<rparr>"

definition finish_slide :: "bool \<Rightarrow> SlideState \<Rightarrow> Slide" where
  "finish_slide isFirstSlide st =
     \<lparr>layout = inferLayout (st_title st) (st_subtitle st) (st_blocks st) isFirstSlide,
      slide_title = st_title st, subtitle = st_subtitle st, blocks = st_blocks st,
      slide_notes = st_notes st, background = st_background st\<rparr>"

definition parseSlide :: "nat \<Rightarrow> string list \<Rightarrow> bool \<Rightarrow> Slide option" where
  "parseSlide fuel lines isFirstSlide =
     map_option (finish_slide isFirstSlide) (parseSlide_loop fuel lines (initial_state lines))"

section \<open>Assembly (\<^verbatim>\<open>parse\<close>)\<close>

definition hasFrontmatterTitle :: "PresentationMeta \<Rightarrow> bool" where
  "hasFrontmatterTitle m = truthy (title m)"

text \<open>\<^verbatim>\<open>slideChunks.map((chunk, i) => parseSlide(chunk, i === 0 && !hasFrontmatterTitle(meta)))\<close>;
  the result is \<open>None\<close> when the loop of one chunk does not end within \<open>fuel\<close>
  iterations.\<close>

definition parse_slides :: "nat \<Rightarrow> PresentationMeta \<Rightarrow> string list list \<Rightarrow> Slide list option" where
  "parse_slides fuel m slideChunks =
     those (map (\<lambda>i. parseSlide fuel (slideChunks ! i) (i = 0 \<and> \<not> hasFrontmatterTitle m))
                [0 ..< length slideChunks])"

text \<open>The title taken from the first slide when the frontmatter gave none.\<close>

definition backfill_title :: "PresentationMeta \<Rightarrow> Slide list \<Rightarrow> PresentationMeta" where
  "backfill_title m ss =
     (if \<not> truthy (title m) \<and> 0 < length ss \<and> truthy (slide_title (ss ! 0))
      then m\<lparr>title := slide_title (ss ! 0)\<rparr> else m)"

definition parse :: "nat \<Rightarrow> string \<Rightarrow> Presentation option" where
  "parse fuel input =
     (let lines = split_nl input in
      case parseFrontmatter lines of (m, bodyStart) \<Rightarrow>
        (case parse_slides fuel m (splitIntoSlides lines bodyStart) of
           None \<Rightarrow> None
         | Some ss \<Rightarrow> Some \<lparr>meta = backfill_title m ss, slides = ss\<rparr>))"

section \<open>Notions used to state the properties\<close>

text \<open>The frontmatter keys the specification lists, and the further spellings the
  \<^verbatim>\<open>switch\<close> of \<^verbatim>\<open>parseFrontmatter\<close> accepts.\<close>

definition claimed_keys :: "string list" where
  "claimed_keys = [''title'', ''author'', ''date'', ''theme'', ''aspect-ratio'', ''accent-color'',
     ''font-family'', ''style'']"

definition alias_keys :: "string list" where
  "alias_keys = [''aspectratio'', ''accentcolor'', ''color'', ''font'', ''fontfamily'']"

definition is_ratio_key :: "string \<Rightarrow> bool" where
  "is_ratio_key k = (k = ''aspect-ratio'' \<or> k = ''aspectratio'')"

text \<open>
  The specification of the chart mini-language, line by line: a line sets the type, sets
  the title, adds an item or is ignored, in that order of precedence, and the result
  collects what the lines do.
\<close>

datatype ChartLineKind =
  Sets_type ChartType | Sets_title string | Adds_item ChartItem | Ignored_line

definition chart_line_kind :: "string \<Rightarrow> ChartLineKind" where
  "chart_line_kind line =
     (case typeMatch (trim line) of
        Some k \<Rightarrow> Sets_type k
      | None \<Rightarrow>
         (case titleMatch (trim line) of
            Some g \<Rightarrow> Sets_title (trim g)
          | None \<Rightarrow>
             (case dataMatch (trim line) of
                Some (l, n) \<Rightarrow> Adds_item \<lparr>item_label = trim l, item_value = parseFloat n\<rparr>
              | None \<Rightarrow> Ignored_line)))"

fun types_set :: "ChartLineKind list \<Rightarrow> ChartType list" where
  "types_set [] = []"
| "types_set (Sets_type k # ks) = k # types_set ks"
| "types_set (_ # ks) = types_set ks"

fun titles_set :: "ChartLineKind list \<Rightarrow> string list" where
  "titles_set [] = []"
| "titles_set (Sets_title t # ks) = t # titles_set ks"
| "titles_set (_ # ks) = titles_set ks"

fun items_added :: "ChartLineKind list \<Rightarrow> ChartItem list" where
  "items_added [] = []"
| "items_added (Adds_item x # ks) = x # items_added ks"
| "items_added (_ # ks) = items_added ks"

definition last_or :: "'a \<Rightarrow> 'a list \<Rightarrow> 'a" where
  "last_or d xs = (if xs = [] then d else last xs)"

text \<open>
  The layout rule in the words of the specification, as a function of: the slide has a
  title, its blocks, and the slide is the first one while the frontmatter gave no title.
\<close>

definition layout_spec :: "bool \<Rightarrow> ContentBlock list \<Rightarrow> bool \<Rightarrow> SlideLayout" where
  "layout_spec hasTitle bs firstWithoutMetaTitle =
     (if (case bs of [b] \<Rightarrow> btype b = Image_block | _ \<Rightarrow> False) \<and> \<not> hasTitle then ImageFull
      else if firstWithoutMetaTitle \<and> bs = [] then Title
      else if hasTitle \<and> bs = [] then Section
      else Content)"

text \<open>
  A trimmed line that no branch of the dispatcher consumes: it reaches the paragraph
  parser, which stops at it.
\<close>

definition unconsumed_line :: "string \<Rightarrow> bool" where
  "unconsumed_line t =
     (t \<noteq> [] \<and> \<not> startsWith t ''<!-- notes:'' \<and> \<not> startsWith t ''<!--notes:''
      \<and> \<not> startsWith t ''<!-- bg:'' \<and> \<not> startsWith t ''<!--bg:''
      \<and> \<not> test_heading 1 t \<and> \<not> test_heading 2 t \<and> \<not> test_heading 3 t \<and> \<not> is_fence t
      \<and> stockMatch t = None \<and> aiMatch t = None \<and> imgMatch t = None
      \<and> \<not> test_quote t \<and> \<not> test_bullet t \<and> \<not> test_numbered t
      \<and> paragraph_stop t)"

text \<open>
  The items of a bullet list. A top-level item is what follows the marker of a trimmed
  line: it is not empty and has no white space at either end. The lines a list is written
  back to: the marker before a top-level item, and the marker after the two-space prefix
  of an item that carries one.
\<close>

definition item_ok :: "string \<Rightarrow> bool" where
  "item_ok it = (it \<noteq> [] \<and> \<not> is_space (hd it) \<and> \<not> is_space (last it))"

definition serialize_item :: "string \<Rightarrow> string" where
  "serialize_item it = (if startsWith it ''  '' then ''  - '' @ drop 2 it else ''- '' @ it)"

definition list_block_ok :: "ContentBlock \<Rightarrow> bool" where
  "list_block_ok b =
     ((btype b = Bullets \<or> btype b = Numbered) \<longrightarrow>
        (\<exists>its. items b = Some its \<and> its \<noteq> [] \<and>
           (btype b = Bullets \<longrightarrow> (\<forall>it\<in>set its. item_ok it \<or> startsWith it ''  ''))))"

section \<open>Properties of the segmentation\<close>

lemma dash_not_space: "\<not> is_space CHR ''-''"
  by (simp add: is_space_def)

lemma trim_Cons_nonspace:
  "\<not> is_space c \<Longrightarrow> trim (c # cs) = c # rev (dropWhile is_space (rev cs))"
  by (simp add: trim_def dropWhile_append3)










section \<open>Properties of the frontmatter\<close>

text \<open>
  Claim C6 as stated fails: the key \<^verbatim>\<open>color\<close> is none of the eight keys of the claim,
  and an interior line \<^verbatim>\<open>color: red\<close> sets the accent colour.
\<close>

theorem C6_alias_key_counterexample:
  "frontmatter_key_value ''color: red'' = Some (''color'', ''red'')
   \<and> ''color'' \<notin> set claimed_keys
   \<and> fst (parseFrontmatter [''---'', ''color: red'', ''---'']) =
       initial_meta\<lparr>accentColor := Some ''red''\<rparr>
   \<and> fst (parseFrontmatter [''---'', ''color: red'', ''---'']) \<noteq>
       fst (parseFrontmatter [''---'', ''---''])"
  by code_simp

lemma frontmatter_switch_other:
  "k \<notin> set (claimed_keys @ alias_keys) \<Longrightarrow> frontmatter_switch k v m = m"
  by (simp add: frontmatter_switch_def claimed_keys_def alias_keys_def)

lemma frontmatter_switch_bad_ratio:
  "is_ratio_key k \<Longrightarrow> v \<noteq> ''4:3'' \<Longrightarrow> v \<noteq> ''16:9'' \<Longrightarrow> frontmatter_switch k v m = m"
  by (auto simp: frontmatter_switch_def is_ratio_key_def)

lemma frontmatter_switch_known:
  "k \<in> set (claimed_keys @ alias_keys) \<Longrightarrow> frontmatter_switch k ''4:3'' initial_meta \<noteq> initial_meta"
  by (auto simp: frontmatter_switch_def claimed_keys_def alias_keys_def initial_meta_def)

text \<open>
  Claim C6, amended. The keys that can affect the metadata are the eight of the claim
  and the five further spellings \<^verbatim>\<open>aspectratio\<close>, \<^verbatim>\<open>accentcolor\<close>, \<^verbatim>\<open>color\<close>, \<^verbatim>\<open>font\<close> and
  \<^verbatim>\<open>fontfamily\<close> (lower-cased and trimmed). An interior line that has no key, or a key
  that is none of the thirteen, or an aspect ratio key with a value that is neither
  \<^verbatim>\<open>4:3\<close> nor \<^verbatim>\<open>16:9\<close>, leaves the metadata unchanged: the loop body returns its
  argument, and the line can be dropped from the block without changing the result.
  Each of the thirteen keys does change the initial metadata for some value.
\<close>

theorem C6_unrecognized_key_ignored:
  assumes "\<And>k v. frontmatter_key_value raw = Some (k, v) \<Longrightarrow>
             k \<notin> set (claimed_keys @ alias_keys)
             \<or> (is_ratio_key k \<and> v \<noteq> ''4:3'' \<and> v \<noteq> ''16:9'')"
  shows "frontmatter_line m raw = m
     \<and> foldl frontmatter_line m0 (pre @ [raw] @ post) = foldl frontmatter_line m0 (pre @ post)
     \<and> (\<forall>k\<in>set (claimed_keys @ alias_keys). \<exists>v. frontmatter_switch k v initial_meta \<noteq> initial_meta)"
proof -
  have step: "frontmatter_line m' raw = m'" for m'
  proof (cases "frontmatter_key_value raw")
    case None
    then show ?thesis by (simp add: frontmatter_line_def)
  next
    case (Some kv)
    obtain k v where kv: "kv = (k, v)" by (cases kv)
    from assms [of k v] Some kv
    have "k \<notin> set (claimed_keys @ alias_keys)
          \<or> (is_ratio_key k \<and> v \<noteq> ''4:3'' \<and> v \<noteq> ''16:9'')"
      by simp
    then have "frontmatter_switch k v m' = m'"
      using frontmatter_switch_other frontmatter_switch_bad_ratio by blast
    with Some kv show ?thesis by (simp add: frontmatter_line_def)
  qed
  have known: "\<forall>k\<in>set (claimed_keys @ alias_keys). \<exists>v. frontmatter_switch k v initial_meta \<noteq> initial_meta"
    using frontmatter_switch_known by blast
  from step known show ?thesis by simp
qed

theorem C6_unrecognized_key_ignored_witness:
  "fst (parseFrontmatter
         [''---'', ''title: T'', ''Subject: x'', ''aspect-ratio: 5:4'', ''author: A'', ''---''])
     = initial_meta\<lparr>title := Some ''T'', author := Some ''A''\<rparr>"
proof -
  have kv1: "frontmatter_key_value ''Subject: x'' = Some (''subject'', ''x'')"
    by code_simp
  have kv2: "frontmatter_key_value ''aspect-ratio: 5:4'' = Some (''aspect-ratio'', ''5:4'')"
    by code_simp
  have h1: "\<And>k v. frontmatter_key_value ''Subject: x'' = Some (k, v) \<Longrightarrow>
             k \<notin> set (claimed_keys @ alias_keys)
             \<or> (is_ratio_key k \<and> v \<noteq> ''4:3'' \<and> v \<noteq> ''16:9'')"
    by (simp add: kv1 claimed_keys_def alias_keys_def)
  have h2: "\<And>k v. frontmatter_key_value ''aspect-ratio: 5:4'' = Some (k, v) \<Longrightarrow>
             k \<notin> set (claimed_keys @ alias_keys)
             \<or> (is_ratio_key k \<and> v \<noteq> ''4:3'' \<and> v \<noteq> ''16:9'')"
    unfolding kv2 by (simp add: is_ratio_key_def)
  have pf: "fst (parseFrontmatter
         [''---'', ''title: T'', ''Subject: x'', ''aspect-ratio: 5:4'', ''author: A'', ''---''])
     = foldl frontmatter_line initial_meta
         ([''title: T''] @ [''Subject: x''] @ [''aspect-ratio: 5:4'', ''author: A''])"
    by code_simp
  have a: "foldl frontmatter_line initial_meta
             ([''title: T''] @ [''Subject: x''] @ [''aspect-ratio: 5:4'', ''author: A''])
     = foldl frontmatter_line initial_meta ([''title: T''] @ [''aspect-ratio: 5:4'', ''author: A''])"
    using C6_unrecognized_key_ignored [OF h1] by blast
  have b: "foldl frontmatter_line initial_meta
             ([''title: T''] @ [''aspect-ratio: 5:4''] @ [''author: A''])
     = foldl frontmatter_line initial_meta ([''title: T''] @ [''author: A''])"
    using C6_unrecognized_key_ignored [OF h2] by blast
  have c: "foldl frontmatter_line initial_meta ([''title: T''] @ [''author: A''])
     = initial_meta\<lparr>title := Some ''T'', author := Some ''A''\<rparr>"
    by code_simp
  show ?thesis using pf a b c by simp
qed

section \<open>Properties of the mind map mini-language\<close>

lemma trim_spaces_append: "list_all is_space ind \<Longrightarrow> trim (ind @ s) = trim s"
  by (simp add: trim_def dropWhile_append2 list_all_iff)

lemma centerMatch_dash: "centerMatch (CHR ''-'' # cs) = None"
  by (simp add: centerMatch_def startsWith_ci_def ascii_lower_def upper_chars_def lower_chars_def)

lemma takeWhile_spaces_text:
  assumes "list_all is_space ws" "body \<noteq> []" "\<not> is_space (hd body)"
  shows "takeWhile is_space (ws @ body) = ws"
proof -
  from assms(2) assms(3) obtain c cs where t: "body = c # cs" "\<not> is_space c"
    by (cases body) auto
  from assms(1) show ?thesis
    by (simp add: t takeWhile_append2 list_all_iff)
qed

lemma greedy_ws_text:
  assumes "list_all is_space ws" "ws \<noteq> []" "body \<noteq> []" "\<not> is_space (hd body)"
    "list_all is_dot body"
  shows "greedy_ws 1 dot_plus_end (ws @ body) = Some body"
proof -
  from assms(2) obtain k where k: "length ws = Suc k" by (cases ws) auto
  have "dot_plus_end body = Some body"
    using assms(3) assms(5) by (simp add: dot_plus_end_def)
  then show ?thesis
    using takeWhile_spaces_text [OF assms(1) assms(3) assms(4)] by (simp add: greedy_ws_def k)
qed

lemma branchMatch_text:
  assumes "list_all is_space ws" "ws \<noteq> []" "body \<noteq> []" "\<not> is_space (hd body)"
    "list_all is_dot body"
  shows "branchMatch (CHR ''-'' # ws @ body) = Some body"
  using greedy_ws_text [OF assms] by (simp add: branchMatch_def)

lemma branchMatch_indented:
  "ind \<noteq> [] \<Longrightarrow> list_all is_space ind \<Longrightarrow> branchMatch (ind @ s) = None"
  by (cases ind) (auto simp: branchMatch_def dash_not_space)

lemma childMatch_text:
  assumes "list_all is_space ws" "ws \<noteq> []" "body \<noteq> []" "\<not> is_space (hd body)"
    "list_all is_dot body" and "2 \<le> length ind" "list_all is_space ind"
  shows "childMatch (ind @ CHR ''-'' # ws @ body) = Some body"
proof -
  have "takeWhile is_space (ind @ CHR ''-'' # ws @ body) = ind"
    and "dropWhile is_space (ind @ CHR ''-'' # ws @ body) = CHR ''-'' # ws @ body"
    using assms(7)
    by (simp_all add: takeWhile_append2 dropWhile_append2 list_all_iff dash_not_space)
  then show ?thesis
    using assms(6) branchMatch_text [OF assms(1) assms(2) assms(3) assms(4) assms(5)]
    by (simp add: childMatch_def)
qed

lemma mindmap_line_children:
  assumes "\<forall>b\<in>set (branches d). children b \<noteq> None"
  shows "\<forall>b\<in>set (branches (mindmap_line d line)). children b \<noteq> None"
proof -
  have bl: "set (butlast xs) \<subseteq> set xs" for xs :: "Branch list"
    by (auto dest: in_set_butlastD)
  show ?thesis
    using assms bl [of "branches d"]
    by (auto simp: mindmap_line_def Let_def push_child_def split: option.splits)
qed

lemma foldl_mindmap_line_children:
  "\<forall>b\<in>set (branches d). children b \<noteq> None \<Longrightarrow>
   \<forall>b\<in>set (branches (foldl mindmap_line d lines)). children b \<noteq> None"
proof (induction lines arbitrary: d)
  case Nil
  then show ?case by simp
next
  case (Cons l ls)
  show ?case
    using Cons.IH [OF mindmap_line_children [OF Cons.prems]] by simp
qed

text \<open>
  Claim C3 as stated fails: the branch pattern is tested on the line as it is and allows
  no leading white space, so a line \<^verbatim>\<open>- A\<close> behind one leading space is neither a branch
  nor (with fewer than two leading spaces) a child, and is ignored. Without the space it
  is a branch.
\<close>

theorem C3_one_leading_space_counterexample:
  "parseMindMapData ['' - A''] = \<lparr>center = ''Topic'', branches = []\<rparr>
   \<and> parseMindMapData [''- A''] =
       \<lparr>center = ''Topic'', branches = [\<lparr>branch_label = ''A'', children = Some []\<rparr>]\<rparr>"
  by code_simp

text \<open>
  Claim C3, amended. Let \<open>body\<close> be a text that is not empty, starts with a code unit
  that is no white space and holds no line terminator, let \<open>ws\<close> be one or more white
  space code units and \<open>ind\<close> two or more. Inside a \<^verbatim>\<open>mindmap\<close> fence
  \<^item> the line \<open>- ws body\<close> with no leading white space adds a top-level branch labelled
    with the trimmed \<open>body\<close>, whose child list is present and empty;
  \<^item> the line \<open>ind - ws body\<close> is ignored when no branch exists yet, and otherwise
    appends the trimmed \<open>body\<close> to the end of the children of the branch added last;
  \<^item> every branch of every result has a child list (empty, not absent, when the branch
    has no children);
  \<^item> the four lines \<^verbatim>\<open>center: X\<close>, \<^verbatim>\<open>- A\<close>, \<^verbatim>\<open>  - A1\<close>, \<^verbatim>\<open>- B\<close> give the centre \<^verbatim>\<open>X\<close> and
    the branches \<^verbatim>\<open>A\<close> with the child \<^verbatim>\<open>A1\<close> and \<^verbatim>\<open>B\<close> with no child.
\<close>

theorem C3_mindmap_lines:
  assumes "body \<noteq> []" "\<not> is_space (hd body)" "list_all is_dot body"
    and "ws \<noteq> []" "list_all is_space ws"
    and "2 \<le> length ind" "list_all is_space ind"
  shows "mindmap_line d (CHR ''-'' # ws @ body) =
           d\<lparr>branches := branches d @ [\<lparr>branch_label = trim body, children = Some []\<rparr>]\<rparr>
     \<and> (branches d = [] \<longrightarrow> mindmap_line d (ind @ CHR ''-'' # ws @ body) = d)
     \<and> (\<forall>bs b cs. branches d = bs @ [b] \<and> children b = Some cs \<longrightarrow>
          mindmap_line d (ind @ CHR ''-'' # ws @ body) =
            d\<lparr>branches := bs @ [b\<lparr>children := Some (cs @ [trim body])\<rparr>]\<rparr>)
     \<and> (\<forall>b\<in>set (branches (parseMindMapData lines)). children b \<noteq> None)
     \<and> parseMindMapData [''center: X'', ''- A'', ''  - A1'', ''- B''] =
         \<lparr>center = ''X'', branches = [\<lparr>branch_label = ''A'', children = Some [''A1'']\<rparr>,
                                     \<lparr>branch_label = ''B'', children = Some []\<rparr>]\<rparr>"
proof -
  have ne: "ind \<noteq> []" using assms(6) by auto
  have t1: "trim (CHR ''-'' # ws @ body) = CHR ''-'' # rev (dropWhile is_space (rev (ws @ body)))"
    by (rule trim_Cons_nonspace [OF dash_not_space])
  have t2: "trim (ind @ CHR ''-'' # ws @ body) =
              CHR ''-'' # rev (dropWhile is_space (rev (ws @ body)))"
    using assms(7) t1 by (simp add: trim_spaces_append)
  have bm: "branchMatch (CHR ''-'' # ws @ body) = Some body"
    by (rule branchMatch_text [OF assms(5) assms(4) assms(1) assms(2) assms(3)])
  have nb: "branchMatch (ind @ CHR ''-'' # ws @ body) = None"
    by (rule branchMatch_indented [OF ne assms(7)])
  have cm: "childMatch (ind @ CHR ''-'' # ws @ body) = Some body"
    by (rule childMatch_text [OF assms(5) assms(4) assms(1) assms(2) assms(3) assms(6) assms(7)])
  have A: "mindmap_line d (CHR ''-'' # ws @ body) =
           d\<lparr>branches := branches d @ [\<lparr>branch_label = trim body, children = Some []\<rparr>]\<rparr>"
    by (simp add: mindmap_line_def t1 centerMatch_dash bm)
  have B: "branches d = [] \<longrightarrow> mindmap_line d (ind @ CHR ''-'' # ws @ body) = d"
    by (simp add: mindmap_line_def t2 centerMatch_dash nb cm)
  have C: "\<forall>bs b cs. branches d = bs @ [b] \<and> children b = Some cs \<longrightarrow>
          mindmap_line d (ind @ CHR ''-'' # ws @ body) =
            d\<lparr>branches := bs @ [b\<lparr>children := Some (cs @ [trim body])\<rparr>]\<rparr>"
    by (simp add: mindmap_line_def t2 centerMatch_dash nb cm push_child_def)
  have D: "\<forall>b\<in>set (branches (parseMindMapData lines)). children b \<noteq> None"
    unfolding parseMindMapData_def by (rule foldl_mindmap_line_children) simp
  have E: "parseMindMapData [''center: X'', ''- A'', ''  - A1'', ''- B''] =
         \<lparr>center = ''X'', branches = [\<lparr>branch_label = ''A'', children = Some [''A1'']\<rparr>,
                                     \<lparr>branch_label = ''B'', children = Some []\<rparr>]\<rparr>"
    by code_simp
  from A B C D E show ?thesis by blast
qed

theorem C3_mindmap_lines_witness:
  "mindmap_line \<lparr>center = ''X'', branches = [\<lparr>branch_label = ''A'', children = Some [''A1'']\<rparr>]\<rparr>
     (CHR ''-'' # '' '' @ ''B '') =
     \<lparr>center = ''X'', branches = [\<lparr>branch_label = ''A'', children = Some [''A1'']\<rparr>,
                                 \<lparr>branch_label = ''B'', children = Some []\<rparr>]\<rparr>
   \<and> mindmap_line \<lparr>center = ''X'', branches = [\<lparr>branch_label = ''A'', children = Some [''A1'']\<rparr>]\<rparr>
     (''   '' @ CHR ''-'' # '' '' @ ''B '') =
     \<lparr>center = ''X'', branches = [\<lparr>branch_label = ''A'', children = Some [''A1'', ''B'']\<rparr>]\<rparr>"
proof -
  let ?d = "\<lparr>center = ''X'', branches = [\<lparr>branch_label = ''A'', children = Some [''A1'']\<rparr>]\<rparr>"
  have h: "''B '' \<noteq> []" "\<not> is_space (hd ''B '')" "list_all is_dot ''B ''"
    "'' '' \<noteq> []" "list_all is_space '' ''" "2 \<le> length ''   ''" "list_all is_space ''   ''"
    by (simp_all add: is_space_def is_dot_def)
  have t: "trim ''B '' = ''B''" by code_simp
  note th = C3_mindmap_lines [OF h, of ?d "[]"]
  from th have a: "mindmap_line ?d (CHR ''-'' # '' '' @ ''B '') =
      ?d\<lparr>branches := branches ?d @ [\<lparr>branch_label = trim ''B '', children = Some []\<rparr>]\<rparr>"
    by blast
  from th have "\<forall>bs b cs. branches ?d = bs @ [b] \<and> children b = Some cs \<longrightarrow>
          mindmap_line ?d (''   '' @ CHR ''-'' # '' '' @ ''B '') =
            ?d\<lparr>branches := bs @ [b\<lparr>children := Some (cs @ [trim ''B ''])\<rparr>]\<rparr>"
    by blast
  then have b: "mindmap_line ?d (''   '' @ CHR ''-'' # '' '' @ ''B '') =
            ?d\<lparr>branches := [] @ [\<lparr>branch_label = ''A'', children = Some [''A1'']\<rparr>
               \<lparr>children := Some ([''A1''] @ [trim ''B ''])\<rparr>]\<rparr>"
    by (elim allE [where x = "[]"] allE [where x = "\<lparr>branch_label = ''A'', children = Some [''A1'']\<rparr>"]
        allE [where x = "[''A1'']"]) simp
  show ?thesis using a b by (simp add: t)
qed

section \<open>Properties of the chart mini-language\<close>

lemma types_set_append: "types_set (xs @ ys) = types_set xs @ types_set ys"
  by (induction xs rule: types_set.induct) auto

lemma titles_set_append: "titles_set (xs @ ys) = titles_set xs @ titles_set ys"
  by (induction xs rule: titles_set.induct) auto

lemma items_added_append: "items_added (xs @ ys) = items_added xs @ items_added ys"
  by (induction xs rule: items_added.induct) auto

lemma matches_blank: "typeMatch [] = None" "titleMatch [] = None" "dataMatch [] = None"
  by (simp_all add: typeMatch_def titleMatch_def dataMatch_def startsWith_ci_def)

text \<open>The loop body does to the state what the kind of the line says, whatever the state
  and the other lines are.\<close>

lemma chart_line_by_kind:
  "chart_line d line =
     (case chart_line_kind line of
        Sets_type k \<Rightarrow> d\<lparr>chart_type := k\<rparr>
      | Sets_title t \<Rightarrow> d\<lparr>chart_title := Some t\<rparr>
      | Adds_item x \<Rightarrow> d\<lparr>chart_items := chart_items d @ [x]\<rparr>
      | Ignored_line \<Rightarrow> d)"
  by (cases "trim line = []")
     (auto simp: chart_line_def chart_line_kind_def Let_def matches_blank split: option.splits)

lemma parseChartData_snoc: "parseChartData (ls @ [l]) = chart_line (parseChartData ls) l"
  by (simp add: parseChartData_def)

text \<open>
  Claim C4. Every line of a \<^verbatim>\<open>chart\<close> fence has a kind of its own
  (\<^const>\<open>chart_line_kind\<close>): a \<^verbatim>\<open>type:\<close> line whose value is \<^verbatim>\<open>bar\<close>, \<^verbatim>\<open>pie\<close> or \<^verbatim>\<open>line\<close> in
  any case sets the type; else a \<^verbatim>\<open>title:\<close> line with a text sets the title; else a line
  \<open>label: number\<close> adds an item; every other line is ignored. The chart type of the
  result is the one set last and \<^verbatim>\<open>bar\<close> when none is set; the title is the one set
  last and absent when none is set; the items are those of the item lines, in the order
  of the lines and with repeated labels kept. The lines \<^verbatim>\<open>Q1: 10\<close>, \<^verbatim>\<open>Q2: 20\<close> give the
  two items and the type \<^verbatim>\<open>bar\<close>.
\<close>

theorem C4_chart_lines:
  "parseChartData lines =
     \<lparr>chart_type = last_or Bar (types_set (map chart_line_kind lines)),
      chart_title = last_or None (map Some (titles_set (map chart_line_kind lines))),
      chart_items = items_added (map chart_line_kind lines)\<rparr>
   \<and> parseChartData [''Q1: 10'', ''Q2: 20''] =
       \<lparr>chart_type = Bar, chart_title = None,
        chart_items = [\<lparr>item_label = ''Q1'', item_value = 10\<rparr>,
                       \<lparr>item_label = ''Q2'', item_value = 20\<rparr>]\<rparr>"
proof -
  have "parseChartData lines =
     \<lparr>chart_type = last_or Bar (types_set (map chart_line_kind lines)),
      chart_title = last_or None (map Some (titles_set (map chart_line_kind lines))),
      chart_items = items_added (map chart_line_kind lines)\<rparr>"
  proof (induction lines rule: rev_induct)
    case Nil
    show ?case by (simp add: parseChartData_def last_or_def)
  next
    case (snoc l ls)
    show ?case
      by (cases "chart_line_kind l")
         (simp_all add: parseChartData_snoc snoc chart_line_by_kind types_set_append
            titles_set_append items_added_append last_or_def)
  qed
  moreover have "parseChartData [''Q1: 10'', ''Q2: 20''] =
       \<lparr>chart_type = Bar, chart_title = None,
        chart_items = [\<lparr>item_label = ''Q1'', item_value = 10\<rparr>,
                       \<lparr>item_label = ''Q2'', item_value = 20\<rparr>]\<rparr>"
    by code_simp
  ultimately show ?thesis by blast
qed

theorem C4_chart_lines_witness:
  "parseChartData [''TYPE: Pie'', ''title: A'', ''x: 1'', ''junk'', ''Title:  B '', ''x: 2.5'',
                   ''type: 3'', ''type: line''] =
     \<lparr>chart_type = Line, chart_title = Some ''B'',
      chart_items = [\<lparr>item_label = ''x'', item_value = 1\<rparr>,
                     \<lparr>item_label = ''x'', item_value = 5 / 2\<rparr>,
                     \<lparr>item_label = ''type'', item_value = 3\<rparr>]\<rparr>"
proof -
  have k: "map chart_line_kind [''TYPE: Pie'', ''title: A'', ''x: 1'', ''junk'', ''Title:  B '',
             ''x: 2.5'', ''type: 3'', ''type: line''] =
     [Sets_type Pie, Sets_title ''A'', Adds_item \<lparr>item_label = ''x'', item_value = 1\<rparr>,
      Ignored_line, Sets_title ''B'', Adds_item \<lparr>item_label = ''x'', item_value = 5 / 2\<rparr>,
      Adds_item \<lparr>item_label = ''type'', item_value = 3\<rparr>, Sets_type Line]"
    by code_simp
  note th = C4_chart_lines [of "[''TYPE: Pie'', ''title: A'', ''x: 1'', ''junk'', ''Title:  B '',
             ''x: 2.5'', ''type: 3'', ''type: line'']"]
  from th [unfolded k] show ?thesis
    by (simp add: last_or_def)
qed

section \<open>Properties of the dispatcher\<close>

subsection \<open>Lines the main loop never passes\<close>

lemma para_loop_stop:
  "i < length lines \<Longrightarrow> paragraph_stop (trim (lines ! i)) \<Longrightarrow>
   para_loop lines i acc = (acc, int i - 1)"
  by (subst para_loop.simps) simp

text \<open>At an unconsumed line one iteration pushes an empty paragraph and leaves the
  cursor where it is.\<close>

lemma parseSlide_step_stuck:
  assumes "st_i st < length lines" and "unconsumed_line (trim (lines ! st_i st))"
  shows "parseSlide_step lines st = st\<lparr>st_blocks := st_blocks st @ [block Text []]\<rparr>"
proof -
  have p: "parseParagraph lines (st_i st) = (block Text [], int (st_i st) - 1)"
    using assms by (simp add: parseParagraph_def para_loop_stop unconsumed_line_def)
  show ?thesis
    using assms(2)
    by (simp add: parseSlide_step_def dispatch_tail_def unconsumed_line_def p push_result_def)
qed

lemma parseSlide_loop_stuck:
  assumes "st_i st < length lines" and "unconsumed_line (trim (lines ! st_i st))"
  shows "parseSlide_loop fuel lines st = None"
  using assms
proof (induction fuel arbitrary: st)
  case 0
  then show ?case by (simp add: parseSlide_loop.simps)
next
  case (Suc fuel)
  have s: "parseSlide_step lines st = st\<lparr>st_blocks := st_blocks st @ [block Text []]\<rparr>"
    by (rule parseSlide_step_stuck [OF Suc.prems])
  have "parseSlide_loop fuel lines (st\<lparr>st_blocks := st_blocks st @ [block Text []]\<rparr>) = None"
    by (rule Suc.IH) (use Suc.prems in simp_all)
  then show ?case
    using Suc.prems(1) by (simp add: parseSlide_loop.simps [of "Suc fuel"] s)
qed

text \<open>
  Claim C1 says that \<^verbatim>\<open>parse\<close> returns a document for every input string. The code
  does not: on each of the three one-line inputs below the main loop of \<^verbatim>\<open>parseSlide\<close>
  is still running after any number of iterations. The line is an image opening without
  its \<^verbatim>\<open>](...)\<close>, a comment that is neither a notes nor a background directive, and an
  indented rule of dashes; no branch of the dispatcher consumes it, \<^verbatim>\<open>parseParagraph\<close>
  stops at it at once and returns \<^verbatim>\<open>endIndex = startIndex - 1\<close>, and the cursor is set
  back to the same line.
\<close>

theorem C1_parse_never_returns:
  "parse fuel ''![x'' = None \<and> parse fuel ''<!-- x -->'' = None \<and> parse fuel ''  ---'' = None"
proof -
  have u1: "unconsumed_line (trim ''![x'')" by code_simp
  have u2: "unconsumed_line (trim ''<!-- x -->'')" by code_simp
  have u3: "unconsumed_line (trim ''  ---'')" by code_simp
  have i1: "st_i (initial_state [''![x'']) = 0" by code_simp
  have l1: "parseSlide_loop fuel [''![x''] (initial_state [''![x'']) = None"
    by (rule parseSlide_loop_stuck) (simp_all add: i1 u1)
  have i2: "st_i (initial_state [''<!-- x -->'']) = 0" by code_simp
  have l2: "parseSlide_loop fuel [''<!-- x -->''] (initial_state [''<!-- x -->'']) = None"
    by (rule parseSlide_loop_stuck) (simp_all add: i2 u2)
  have i3: "st_i (initial_state [''  ---'']) = 0" by code_simp
  have l3: "parseSlide_loop fuel [''  ---''] (initial_state [''  ---'']) = None"
    by (rule parseSlide_loop_stuck) (simp_all add: i3 u3)
  have c1: "split_nl ''![x'' = [''![x''] \<and> parseFrontmatter [''![x''] = (initial_meta, 0)
     \<and> splitIntoSlides [''![x''] 0 = [[''![x'']]"
    by code_simp
  have c2: "split_nl ''<!-- x -->'' = [''<!-- x -->'']
     \<and> parseFrontmatter [''<!-- x -->''] = (initial_meta, 0)
     \<and> splitIntoSlides [''<!-- x -->''] 0 = [[''<!-- x -->'']]"
    by code_simp
  have c3: "split_nl ''  ---'' = [''  ---''] \<and> parseFrontmatter [''  ---''] = (initial_meta, 0)
     \<and> splitIntoSlides [''  ---''] 0 = [[''  ---'']]"
    by code_simp
  show ?thesis
    by (simp add: parse_def c1 c2 c3 parse_slides_def parseSlide_def l1 l2 l3)
qed

theorem C1_parse_never_returns_witness:
  "parse 1000 ''![x'' = None \<and> parse 7 ''<!-- x -->'' = None"
  using C1_parse_never_returns [of 1000] C1_parse_never_returns [of 7] by simp

subsection \<open>Trimmed lines and what follows a marker\<close>

lemma last_dropWhile: "dropWhile P xs \<noteq> [] \<Longrightarrow> last (dropWhile P xs) = last xs"
  by (induction xs) (auto split: if_splits)

lemma trim_ends:
  assumes "trim s \<noteq> []"
  shows "\<not> is_space (hd (trim s))" and "\<not> is_space (last (trim s))"
proof -
  let ?u = "dropWhile is_space s"
  let ?v = "dropWhile is_space (rev ?u)"
  from assms have v: "?v \<noteq> []" by (simp add: trim_def)
  have u: "?u \<noteq> []"
    using v by (auto dest: set_dropWhileD)
  have "hd (trim s) = last ?v" using v by (simp add: trim_def hd_rev)
  also have "\<dots> = last (rev ?u)" using v by (rule last_dropWhile)
  also have "\<dots> = hd ?u" using u by (simp add: last_rev)
  finally show "\<not> is_space (hd (trim s))" using hd_dropWhile [OF u] by simp
  have "last (trim s) = hd ?v" using v by (simp add: trim_def last_rev)
  then show "\<not> is_space (last (trim s))" using hd_dropWhile [OF v] by simp
qed

lemma trim_id:
  assumes "s \<noteq> []" "\<not> is_space (hd s)" "\<not> is_space (last s)"
  shows "trim s = s"
proof -
  from assms(1) assms(2) have a: "dropWhile is_space s = s" by (cases s) auto
  from assms(1) assms(3) have b: "dropWhile is_space (rev s) = rev s"
    by (cases "rev s") (auto simp: hd_rev [symmetric] simp del: rev_is_Nil_conv)
  show ?thesis by (simp add: trim_def a b)
qed

text \<open>What is left of a trimmed line after a marker of \<open>k\<close> code units and the white
  space behind it.\<close>

lemma after_marker_ok:
  assumes t: "t = trim l" and d: "drop k t = c # cs" and c: "is_space c"
  shows "item_ok (dropWhile is_space (drop k t))"
proof -
  have tn: "trim l \<noteq> []" using t d by auto
  have "k < length t" using d by (cases "k < length t") auto
  then have "last (drop k t) = last t" by (rule last_drop)
  then have lst: "\<not> is_space (last (drop k t))" using trim_ends(2) [OF tn] t by simp
  have ne: "dropWhile is_space (drop k t) \<noteq> []"
  proof
    assume "dropWhile is_space (drop k t) = []"
    then have "\<forall>x\<in>set (drop k t). is_space x" by (simp add: dropWhile_eq_Nil_conv)
    moreover have "last (drop k t) \<in> set (drop k t)" by (rule last_in_set) (simp add: d)
    ultimately show False using lst by blast
  qed
  from hd_dropWhile [OF ne] last_dropWhile [OF ne] lst ne show ?thesis
    by (simp add: item_ok_def)
qed

lemma strip_bullet_ok:
  assumes "test_bullet (trim l)"
  shows "item_ok (strip_bullet (trim l))"
proof -
  from assms obtain m c cs where "trim l = m # c # cs" "is_space c"
    by (auto simp: test_bullet_def starts_ws_def split: list.splits)
  then have "drop 1 (trim l) = c # cs" by simp
  from after_marker_ok [OF refl this \<open>is_space c\<close>] assms show ?thesis
    by (simp add: strip_bullet_def)
qed

lemma strip_heading_nonempty:
  assumes "test_heading k (trim l)"
  shows "strip_heading k (trim l) \<noteq> []"
proof -
  from assms obtain c cs where d: "drop k (trim l) = c # cs" and c: "is_space c"
    by (auto simp: test_heading_def starts_ws_def split: list.splits)
  from after_marker_ok [OF refl d c] assms show ?thesis
    by (simp add: strip_heading_def item_ok_def)
qed

subsection \<open>The list parsers\<close>

lemma bullet_loop_items:
  "\<forall>it\<in>set its. item_ok it \<or> startsWith it ''  '' \<Longrightarrow>
   \<forall>it\<in>set (fst (bullet_loop lines i its)). item_ok it \<or> startsWith it ''  ''"
proof (induction lines i its rule: bullet_loop.induct)
  case (1 lines i its)
  show ?case
    using 1 strip_bullet_ok [of "lines ! i"]
    by (subst bullet_loop.simps) (auto simp: startsWith_def)
qed

lemma bullet_loop_keeps:
  "its \<noteq> [] \<Longrightarrow> fst (bullet_loop lines i its) \<noteq> []"
proof (induction lines i its rule: bullet_loop.induct)
  case (1 lines i its)
  show ?case using 1 by (subst bullet_loop.simps) auto
qed

lemma bullet_loop_nonempty:
  "i < length lines \<Longrightarrow> test_bullet (trim (lines ! i)) \<Longrightarrow>
   fst (bullet_loop lines i []) \<noteq> []"
  by (subst bullet_loop.simps) (simp add: bullet_loop_keeps)

lemma numbered_loop_keeps:
  "its \<noteq> [] \<Longrightarrow> fst (numbered_loop lines i its) \<noteq> []"
proof (induction lines i its rule: numbered_loop.induct)
  case (1 lines i its)
  show ?case using 1 by (subst numbered_loop.simps) auto
qed

lemma numbered_loop_nonempty:
  "i < length lines \<Longrightarrow> test_numbered (trim (lines ! i)) \<Longrightarrow>
   fst (numbered_loop lines i []) \<noteq> []"
  by (subst numbered_loop.simps) (simp add: numbered_loop_keeps)

lemma serialize_item_ok:
  assumes "item_ok it"
  shows "serialize_item it = ''- '' @ it" and "trim (''- '' @ it) = ''- '' @ it"
    and "test_bullet (''- '' @ it)" and "strip_bullet (''- '' @ it) = it"
proof -
  from assms obtain c cs where it: "it = c # cs" and c: "\<not> is_space c"
    by (cases it) (auto simp: item_ok_def)
  have sp: "is_space CHR '' ''" by (simp add: is_space_def)
  from c sp have ns: "\<not> startsWith it ''  ''"
    by (auto simp: startsWith_def it)
  then show "serialize_item it = ''- '' @ it" by (simp add: serialize_item_def)
  have "last (''- '' @ it) = last it" using it by simp
  then show "trim (''- '' @ it) = ''- '' @ it"
    using assms by (intro trim_id) (simp_all add: item_ok_def dash_not_space)
  show tb: "test_bullet (''- '' @ it)" by (simp add: test_bullet_def starts_ws_def sp)
  show "strip_bullet (''- '' @ it) = it" using tb c sp by (simp add: strip_bullet_def it)
qed

text \<open>The bullet loop on the lines written back from top-level items reads the items
  back, one per line.\<close>

lemma bullet_loop_roundtrip:
  assumes ok: "\<forall>it\<in>set xs. item_ok it"
  shows "n = length xs - i \<Longrightarrow> i \<le> length xs \<Longrightarrow>
         bullet_loop (map serialize_item xs) i acc = (acc @ drop i xs, int (length xs) - 1)"
proof (induction n arbitrary: i acc)
  case 0
  then have "i = length xs" by simp
  then show ?case by (subst bullet_loop.simps) simp
next
  case (Suc n)
  then have i: "i < length xs" by simp
  then have oki: "item_ok (xs ! i)" using ok by simp
  have line: "map serialize_item xs ! i = ''- '' @ xs ! i"
    using i serialize_item_ok(1) [OF oki] by simp
  have "bullet_loop (map serialize_item xs) i acc =
          bullet_loop (map serialize_item xs) (i + 1) (acc @ [xs ! i])"
    using i
    by (subst bullet_loop.simps) (simp add: line serialize_item_ok [OF oki] del: append.simps)
  also have "\<dots> = ((acc @ [xs ! i]) @ drop (i + 1) xs, int (length xs) - 1)"
    by (rule Suc.IH) (use Suc.prems in simp_all)
  also have "(acc @ [xs ! i]) @ drop (i + 1) xs = acc @ drop i xs"
    using i by (simp add: Cons_nth_drop_Suc)
  finally show ?case .
qed

subsection \<open>What one iteration of the main loop does to the blocks and the title\<close>

lemma block_not_list:
  "t \<noteq> Bullets \<Longrightarrow> t \<noteq> Numbered \<Longrightarrow> btype b = t \<Longrightarrow> list_block_ok b"
  by (simp add: list_block_ok_def)

lemma parseBulletList_ok:
  assumes "i < length lines" "test_bullet (trim (lines ! i))"
  shows "list_block_ok (fst (parseBulletList lines i))"
proof -
  obtain its e where r: "bullet_loop lines i [] = (its, e)"
    by (cases "bullet_loop lines i []")
  from bullet_loop_nonempty [OF assms] r have "its \<noteq> []" by simp
  moreover from bullet_loop_items [of "[]" lines i] r
  have "\<forall>it\<in>set its. item_ok it \<or> startsWith it ''  ''" by simp
  ultimately show ?thesis
    by (simp add: parseBulletList_def r list_block_ok_def block_def)
qed

lemma parseNumberedList_ok:
  assumes "i < length lines" "test_numbered (trim (lines ! i))"
  shows "list_block_ok (fst (parseNumberedList lines i))"
proof -
  obtain its e where r: "numbered_loop lines i [] = (its, e)"
    by (cases "numbered_loop lines i []")
  from numbered_loop_nonempty [OF assms] r have "its \<noteq> []" by simp
  then show ?thesis
    by (simp add: parseNumberedList_def r list_block_ok_def block_def)
qed

lemma push_result_fields:
  "st_blocks (push_result s r) = st_blocks s @ [fst r]" "st_title (push_result s r) = st_title s"
  by (cases r; simp add: push_result_def)+

lemma push_block_fields:
  "st_blocks (push_block s b) = st_blocks s @ [b]" "st_title (push_block s b) = st_title s"
  by (simp_all add: push_block_def)

lemma sub_parser_types:
  "btype (fst (parseBlockquote lines i)) = Quote"
  "btype (fst (parseParagraph lines i)) = Text"
  "btype (fst (parseCodeBlock lines i)) = Code"
  "btype (fst (parseChartBlock lines i)) = Chart"
  "btype (fst (parseMindMapBlock lines i)) = Mindmap"
  by (simp_all add: parseBlockquote_def parseParagraph_def parseCodeBlock_def parseChartBlock_def
      parseMindMapBlock_def block_def split: prod.splits)

lemma dispatch_tail_blocks:
  assumes "st_i s < length lines" "t = trim (lines ! st_i s)"
  shows "\<exists>b. st_blocks (dispatch_tail lines s t) = st_blocks s @ [b] \<and> list_block_ok b"
  using assms parseBulletList_ok [of "st_i s" lines] parseNumberedList_ok [of "st_i s" lines]
  by (auto simp: dispatch_tail_def push_result_fields push_block_fields block_def sub_parser_types
      intro: block_not_list split: option.splits)

lemma dispatch_fence_blocks:
  "\<exists>b. st_blocks (dispatch_fence lines s t) = st_blocks s @ [b] \<and> list_block_ok b"
  by (auto simp: dispatch_fence_def Let_def push_result_fields sub_parser_types
      intro: block_not_list)

lemma dispatch_title:
  "st_title (dispatch_tail lines s t) = st_title s"
  "st_title (dispatch_fence lines s t) = st_title s"
  by (auto simp: dispatch_tail_def dispatch_fence_def Let_def push_result_fields push_block_fields
      split: option.splits)

lemma parseSlide_step_blocks:
  assumes "st_i s < length lines"
  shows "st_blocks (parseSlide_step lines s) = st_blocks s
     \<or> (\<exists>b. st_blocks (parseSlide_step lines s) = st_blocks s @ [b] \<and> list_block_ok b)"
  using dispatch_tail_blocks [OF assms refl]
    dispatch_fence_blocks [of lines s "trim (lines ! st_i s)"]
  by (auto simp: parseSlide_step_def Let_def push_block_fields block_def list_block_ok_def
      split: prod.splits)

lemma parseSlide_step_title:
  assumes "st_title s \<noteq> Some []"
  shows "st_title (parseSlide_step lines s) \<noteq> Some []"
  using assms strip_heading_nonempty [of 1 "lines ! st_i s"]
    strip_heading_nonempty [of 2 "lines ! st_i s"]
  by (auto simp: parseSlide_step_def Let_def push_block_fields dispatch_title split: prod.splits)

text \<open>A property of the state that every iteration keeps holds when the loop ends.\<close>

lemma parseSlide_loop_invariant:
  assumes "parseSlide_loop fuel lines st = Some st'" and "P st"
    and "\<And>s. P s \<Longrightarrow> st_i s < length lines \<Longrightarrow> P (parseSlide_step lines s)"
  shows "P st'"
  using assms(1) assms(2)
proof (induction fuel arbitrary: st)
  case 0
  then show ?case by (simp add: parseSlide_loop.simps split: if_splits)
next
  case (Suc fuel)
  show ?case
  proof (cases "st_i st < length lines")
    case True
    with Suc.prems(1) have "parseSlide_loop fuel lines (parseSlide_step lines st) = Some st'"
      by (simp add: parseSlide_loop.simps [of "Suc fuel"])
    then show ?thesis by (rule Suc.IH) (rule assms(3) [OF Suc.prems(2) True])
  next
    case False
    with Suc.prems show ?thesis by (simp add: parseSlide_loop.simps [of "Suc fuel"])
  qed
qed

lemma parseSlide_blocks_ok:
  assumes "parseSlide fuel lines f = Some s" and "b \<in> set (blocks s)"
  shows "list_block_ok b"
proof -
  from assms(1) obtain st where l: "parseSlide_loop fuel lines (initial_state lines) = Some st"
    and s: "s = finish_slide f st"
    by (auto simp: parseSlide_def)
  have "\<forall>b\<in>set (st_blocks st). list_block_ok b"
  proof (rule parseSlide_loop_invariant [OF l])
    show "\<forall>b\<in>set (st_blocks (initial_state lines)). list_block_ok b"
      by (simp add: initial_state_def)
  next
    fix s' :: SlideState
    assume "\<forall>b\<in>set (st_blocks s'). list_block_ok b" and "st_i s' < length lines"
    then show "\<forall>b\<in>set (st_blocks (parseSlide_step lines s')). list_block_ok b"
      using parseSlide_step_blocks [of s' lines] by auto
  qed
  with assms(2) show ?thesis by (simp add: s finish_slide_def)
qed

lemma parseSlide_title_nonempty:
  assumes "parseSlide fuel lines f = Some s"
  shows "slide_title s \<noteq> Some []"
proof -
  from assms(1) obtain st where l: "parseSlide_loop fuel lines (initial_state lines) = Some st"
    and s: "s = finish_slide f st"
    by (auto simp: parseSlide_def)
  have "st_title st \<noteq> Some []"
  proof (rule parseSlide_loop_invariant [OF l])
    show "st_title (initial_state lines) \<noteq> Some []"
      by (simp add: initial_state_def)
  next
    fix s' :: SlideState
    assume "st_title s' \<noteq> Some []"
    then show "st_title (parseSlide_step lines s') \<noteq> Some []"
      by (rule parseSlide_step_title)
  qed
  then show ?thesis by (simp add: s finish_slide_def)
qed

subsection \<open>The iteration count does not change a result\<close>

text \<open>When the main loop ends within \<open>fuel\<close> iterations, it ends with the same state
  within any larger number, and so do \<^const>\<open>parseSlide\<close> and \<^const>\<open>parse\<close>: a returned
  presentation does not depend on the count.\<close>

lemma parseSlide_loop_mono:
  "parseSlide_loop fuel lines st = Some r \<Longrightarrow> fuel \<le> fuel' \<Longrightarrow>
   parseSlide_loop fuel' lines st = Some r"
proof (induction fuel arbitrary: fuel' st)
  case 0
  then show ?case
    by (simp add: parseSlide_loop.simps [of 0] parseSlide_loop.simps [of fuel'] split: if_splits)
next
  case (Suc fuel)
  show ?case
  proof (cases "st_i st < length lines")
    case True
    from Suc.prems(2) obtain g where g: "fuel' = Suc g" and le: "fuel \<le> g"
      by (cases fuel') auto
    from Suc.prems(1) True
    have "parseSlide_loop fuel lines (parseSlide_step lines st) = Some r"
      by (simp add: parseSlide_loop.simps [of "Suc fuel"])
    from Suc.IH [OF this le] True show ?thesis
      by (simp add: g parseSlide_loop.simps [of "Suc g"])
  next
    case False
    with Suc.prems(1) show ?thesis
      by (simp add: parseSlide_loop.simps [of "Suc fuel"] parseSlide_loop.simps [of fuel'])
  qed
qed

lemma parseSlide_mono:
  "parseSlide fuel lines f = Some s \<Longrightarrow> fuel \<le> fuel' \<Longrightarrow> parseSlide fuel' lines f = Some s"
  by (auto simp: parseSlide_def dest: parseSlide_loop_mono)

lemma those_map_mono:
  "those (map f xs) = Some ys \<Longrightarrow> (\<And>x y. x \<in> set xs \<Longrightarrow> f x = Some y \<Longrightarrow> g x = Some y) \<Longrightarrow>
   those (map g xs) = Some ys"
proof (induction xs arbitrary: ys)
  case Nil
  then show ?case by simp
next
  case (Cons x xs)
  from Cons.prems(1) obtain y zs where y: "f x = Some y" and zs: "those (map f xs) = Some zs"
    and ys: "ys = y # zs"
    by (auto split: option.splits)
  have "g x = Some y" using Cons.prems(2) [of x y] y by simp
  moreover have "those (map g xs) = Some zs"
    by (rule Cons.IH [OF zs]) (use Cons.prems(2) in auto)
  ultimately show ?case by (simp add: ys)
qed

lemma parse_mono:
  assumes "parse fuel input = Some p" and "fuel \<le> fuel'"
  shows "parse fuel' input = Some p"
proof -
  obtain m bodyStart where pf: "parseFrontmatter (split_nl input) = (m, bodyStart)"
    by (cases "parseFrontmatter (split_nl input)")
  from assms(1) obtain ss
    where ps: "parse_slides fuel m (splitIntoSlides (split_nl input) bodyStart) = Some ss"
      and p: "p = \<lparr>meta = backfill_title m ss, slides = ss\<rparr>"
    by (auto simp: parse_def pf split: option.splits)
  have "parse_slides fuel' m (splitIntoSlides (split_nl input) bodyStart) = Some ss"
    using ps unfolding parse_slides_def
    by (rule those_map_mono) (rule parseSlide_mono [OF _ assms(2)])
  then show ?thesis by (simp add: parse_def pf p)
qed

section \<open>Properties of the assembled presentation\<close>

lemma those_map_nth:
  "those (map f xs) = Some ys \<Longrightarrow>
   length ys = length xs \<and> (\<forall>k<length xs. f (xs ! k) = Some (ys ! k))"
proof (induction xs arbitrary: ys)
  case Nil
  then show ?case by simp
next
  case (Cons x xs)
  from Cons.prems obtain y zs where y: "f x = Some y" and zs: "those (map f xs) = Some zs"
    and ys: "ys = y # zs"
    by (auto split: option.splits)
  from Cons.IH [OF zs] have "length zs = length xs"
    and "\<forall>k<length xs. f (xs ! k) = Some (zs ! k)"
    by simp_all
  then show ?case using y ys by (auto simp: nth_Cons split: nat.splits)
qed

lemma parse_slides_nth:
  assumes "parse_slides fuel m chunks = Some ss"
  shows "length ss = length chunks"
    and "k < length chunks \<Longrightarrow>
         parseSlide fuel (chunks ! k) (k = 0 \<and> \<not> hasFrontmatterTitle m) = Some (ss ! k)"
proof -
  from assms
  have t: "those (map (\<lambda>i. parseSlide fuel (chunks ! i) (i = 0 \<and> \<not> hasFrontmatterTitle m))
                [0 ..< length chunks]) = Some ss"
    by (simp add: parse_slides_def)
  from those_map_nth [OF t] show "length ss = length chunks" by simp
  from those_map_nth [OF t]
  show "k < length chunks \<Longrightarrow>
        parseSlide fuel (chunks ! k) (k = 0 \<and> \<not> hasFrontmatterTitle m) = Some (ss ! k)"
    by auto
qed

lemma parse_SomeD:
  assumes "parse fuel input = Some p"
  shows "parse_slides fuel (fst (parseFrontmatter (split_nl input)))
           (splitIntoSlides (split_nl input) (snd (parseFrontmatter (split_nl input))))
         = Some (slides p)"
    and "meta p = backfill_title (fst (parseFrontmatter (split_nl input))) (slides p)"
  using assms by (auto simp: parse_def Let_def split: prod.splits option.splits)

text \<open>Every slide of a returned presentation is the result of \<^const>\<open>parseSlide\<close> on a
  chunk.\<close>

lemma parse_slide_origin:
  assumes "parse fuel input = Some p" and "s \<in> set (slides p)"
  shows "\<exists>chunk f. parseSlide fuel chunk f = Some s"
proof -
  from assms(2) obtain k where k: "k < length (slides p)" and s: "s = slides p ! k"
    by (auto simp: in_set_conv_nth)
  note ps = parse_SomeD(1) [OF assms(1)]
  from parse_slides_nth(1) [OF ps] k parse_slides_nth(2) [OF ps, of k] s
  show ?thesis by auto
qed

lemma inferLayout_spec: "inferLayout t s bs f = layout_spec (truthy t) bs f"
proof -
  have "(length bs = 1 \<and> btype (bs ! 0) = Image_block) =
        (case bs of [b] \<Rightarrow> btype b = Image_block | _ \<Rightarrow> False)"
    by (cases bs) (auto split: list.splits)
  then show ?thesis by (simp add: inferLayout_def layout_spec_def)
qed

lemma parseSlide_layout:
  assumes "parseSlide fuel lines f = Some s"
  shows "layout s = layout_spec (slide_title s \<noteq> None) (blocks s) f"
proof -
  from parseSlide_title_nonempty [OF assms]
  have "truthy (slide_title s) = (slide_title s \<noteq> None)"
    by (cases "slide_title s") (simp_all add: truthy_def)
  moreover from assms have "layout s = layout_spec (truthy (slide_title s)) (blocks s) f"
    by (auto simp: parseSlide_def finish_slide_def inferLayout_spec)
  ultimately show ?thesis by simp
qed

text \<open>
  Claim C5. For every slide of a returned presentation, at any position \<open>k\<close>, the layout
  is the one the rule of the specification gives (\<^const>\<open>layout_spec\<close>) for: the slide has
  a title; its blocks; and the slide is the first one (\<open>k = 0\<close>) while the frontmatter
  gave no title (none, or an empty one). That is: exactly one block, an image, and no
  title give \<^verbatim>\<open>image-full\<close>; otherwise the first slide without frontmatter title and
  without blocks gives \<^verbatim>\<open>title\<close>; otherwise a title and no blocks give \<^verbatim>\<open>section\<close>;
  otherwise \<^verbatim>\<open>content\<close>. The layout is never \<^verbatim>\<open>two-column\<close> and never \<^verbatim>\<open>blank\<close>. A
  slide title, when present, is never empty.
\<close>

theorem C5_layout_of_parsed_slide:
  assumes "parse fuel input = Some p" and "k < length (slides p)"
  shows "layout (slides p ! k) =
           layout_spec (slide_title (slides p ! k) \<noteq> None) (blocks (slides p ! k))
             (k = 0 \<and> \<not> truthy (title (fst (parseFrontmatter (split_nl input)))))
     \<and> layout (slides p ! k) \<noteq> TwoColumn \<and> layout (slides p ! k) \<noteq> Blank
     \<and> slide_title (slides p ! k) \<noteq> Some []"
proof -
  let ?m = "fst (parseFrontmatter (split_nl input))"
  let ?chunks = "splitIntoSlides (split_nl input) (snd (parseFrontmatter (split_nl input)))"
  note ps = parse_SomeD(1) [OF assms(1)]
  from parse_slides_nth(1) [OF ps] assms(2) have k: "k < length ?chunks" by simp
  note sl = parse_slides_nth(2) [OF ps k]
  have "layout (slides p ! k) =
           layout_spec (slide_title (slides p ! k) \<noteq> None) (blocks (slides p ! k))
             (k = 0 \<and> \<not> hasFrontmatterTitle ?m)"
    by (rule parseSlide_layout [OF sl])
  then show ?thesis
    using parseSlide_title_nonempty [OF sl]
    by (simp add: hasFrontmatterTitle_def layout_spec_def)
qed

theorem C5_layout_of_parsed_slide_witness:
  "parse 9 (join [CHR 0x0A] [''# Intro'', ''---'', ''![Full](hero.jpg)'', ''---'', ''# Part'',
       ''---'', ''# T'', ''- a'']) \<noteq> None
   \<and> map layout (slides (the (parse 9 (join [CHR 0x0A] [''# Intro'', ''---'',
       ''![Full](hero.jpg)'', ''---'', ''# Part'', ''---'', ''# T'', ''- a''])))) =
       [Title, ImageFull, Section, Content]"
proof -
  let ?in = "join [CHR 0x0A] [''# Intro'', ''---'', ''![Full](hero.jpg)'', ''---'', ''# Part'',
       ''---'', ''# T'', ''- a'']"
  have ne: "parse 9 ?in \<noteq> None" by code_simp
  then obtain p where e: "parse 9 ?in = Some p" by auto
  then have p: "p = the (parse 9 ?in)" by simp
  have len: "length (slides (the (parse 9 ?in))) = 4" by code_simp
  have r0: "layout_spec (slide_title (slides (the (parse 9 ?in)) ! 0) \<noteq> None)
              (blocks (slides (the (parse 9 ?in)) ! 0))
              (0 = (0::nat) \<and> \<not> truthy (title (fst (parseFrontmatter (split_nl ?in))))) = Title"
    by code_simp
  have r1: "layout_spec (slide_title (slides (the (parse 9 ?in)) ! 1) \<noteq> None)
              (blocks (slides (the (parse 9 ?in)) ! 1))
              (1 = (0::nat) \<and> \<not> truthy (title (fst (parseFrontmatter (split_nl ?in))))) = ImageFull"
    by code_simp
  have r2: "layout_spec (slide_title (slides (the (parse 9 ?in)) ! 2) \<noteq> None)
              (blocks (slides (the (parse 9 ?in)) ! 2))
              (2 = (0::nat) \<and> \<not> truthy (title (fst (parseFrontmatter (split_nl ?in))))) = Section"
    by code_simp
  have r3: "layout_spec (slide_title (slides (the (parse 9 ?in)) ! 3) \<noteq> None)
              (blocks (slides (the (parse 9 ?in)) ! 3))
              (3 = (0::nat) \<and> \<not> truthy (title (fst (parseFrontmatter (split_nl ?in))))) = Content"
    by code_simp
  have k0: "0 < length (slides p)" using len unfolding p by simp
  have l0: "layout (slides p ! 0) = Title"
    using conjunct1 [OF C5_layout_of_parsed_slide [OF e k0]] unfolding p r0 .
  have k1: "1 < length (slides p)" using len unfolding p by simp
  have l1: "layout (slides p ! 1) = ImageFull"
    using conjunct1 [OF C5_layout_of_parsed_slide [OF e k1]] unfolding p r1 .
  have k2: "2 < length (slides p)" using len unfolding p by simp
  have l2: "layout (slides p ! 2) = Section"
    using conjunct1 [OF C5_layout_of_parsed_slide [OF e k2]] unfolding p r2 .
  have k3: "3 < length (slides p)" using len unfolding p by simp
  have l3: "layout (slides p ! 3) = Content"
    using conjunct1 [OF C5_layout_of_parsed_slide [OF e k3]] unfolding p r3 .
  have len': "length (slides p) = 4" using len unfolding p .
  have "map layout (slides p) = [Title, ImageFull, Section, Content]"
  proof (rule nth_equalityI)
    show "length (map layout (slides p)) = length [Title, ImageFull, Section, Content]"
      using len' by simp
  next
    fix i assume "i < length (map layout (slides p))"
    then have "i = 0 \<or> i = 1 \<or> i = 2 \<or> i = 3" using len' by auto
    then show "map layout (slides p) ! i = [Title, ImageFull, Section, Content] ! i"
      using len' l0 l1 l2 l3 by auto
  qed
  with ne show ?thesis unfolding p by blast
qed

text \<open>
  Claim C7. Let the frontmatter end before the line \<open>bodyStart\<close>, and let \<open>chunks\<close> be
  the segmented chunks, in input order, that have at least one non-blank line. A
  returned presentation has exactly one slide per such chunk: it has as many slides as
  there are such chunks, and its slide at position \<open>k\<close> is the slide parsed from the
  chunk at position \<open>k\<close>. A chunk whose lines are all blank is not among \<open>chunks\<close> and
  gives no slide.
\<close>

theorem C7_one_slide_per_chunk:
  assumes "parse fuel input = Some p"
    and "parseFrontmatter (split_nl input) = (m, bodyStart)"
    and "chunks = filter (\<lambda>chunk. \<exists>line\<in>set chunk. trim line \<noteq> [])
                    (segment (split_nl input) bodyStart)"
  shows "length (slides p) = length chunks
     \<and> (\<forall>k<length chunks.
           parseSlide fuel (chunks ! k) (k = 0 \<and> \<not> hasFrontmatterTitle m) = Some (slides p ! k))"
proof -
  have "has_content = (\<lambda>chunk. \<exists>line\<in>set chunk. trim line \<noteq> [])"
    by (simp add: fun_eq_iff has_content_def list_ex_iff)
  then have c: "chunks = splitIntoSlides (split_nl input) bodyStart"
    by (simp add: assms(3) splitIntoSlides_def)
  from parse_SomeD(1) [OF assms(1)] have ps: "parse_slides fuel m chunks = Some (slides p)"
    by (simp add: assms(2) c)
  from parse_slides_nth [OF ps] show ?thesis by simp
qed

theorem C7_one_slide_per_chunk_witness:
  "parse 9 (join [CHR 0x0A] [''# One'', ''---'', ''  '', ''---'', ''Two'']) \<noteq> None
   \<and> segment (split_nl (join [CHR 0x0A] [''# One'', ''---'', ''  '', ''---'', ''Two''])) 0 =
       [[''# One''], [''  ''], [''Two'']]
   \<and> length (slides (the (parse 9 (join [CHR 0x0A] [''# One'', ''---'', ''  '', ''---'',
       ''Two''])))) = 2"
proof -
  let ?in = "join [CHR 0x0A] [''# One'', ''---'', ''  '', ''---'', ''Two'']"
  have ne: "parse 9 ?in \<noteq> None" by code_simp
  then obtain p where e: "parse 9 ?in = Some p" by auto
  then have p: "p = the (parse 9 ?in)" by simp
  have pf: "parseFrontmatter (split_nl ?in) = (initial_meta, 0)" by code_simp
  have sg: "segment (split_nl ?in) 0 = [[''# One''], [''  ''], [''Two'']]" by code_simp
  have fl: "length (filter (\<lambda>chunk. \<exists>line\<in>set chunk. trim line \<noteq> [])
                    (segment (split_nl ?in) 0)) = 2"
    by code_simp
  from C7_one_slide_per_chunk [OF e pf refl]
  have "length (slides p) =
          length (filter (\<lambda>chunk. \<exists>line\<in>set chunk. trim line \<noteq> []) (segment (split_nl ?in) 0))"
    by (rule conjunct1)
  then have "length (slides p) = 2" unfolding fl .
  with ne sg show ?thesis unfolding p by blast
qed

text \<open>
  Claim C8. Let \<open>m\<close> be the metadata read from the frontmatter. The metadata of a
  returned presentation is \<open>m\<close> with the title of the first slide as its title when
  \<open>m\<close> has no title (none, or an empty one), there is a slide and the first slide has a
  title that is not empty; otherwise it is \<open>m\<close>. No other field of the metadata
  differs from \<open>m\<close>, and the slides are the slides parsed from the chunks, unchanged.
  The input \<^verbatim>\<open># Welcome\<close> has no frontmatter and gives the metadata title \<^verbatim>\<open>Welcome\<close>.
\<close>

theorem C8_title_backfill:
  assumes "parse fuel input = Some p"
    and "parseFrontmatter (split_nl input) = (m, bodyStart)"
  shows "title (meta p) =
           (if \<not> truthy (title m) \<and> slides p \<noteq> [] \<and> truthy (slide_title (hd (slides p)))
            then slide_title (hd (slides p)) else title m)
     \<and> meta p = m\<lparr>title := title (meta p)\<rparr>
     \<and> parse_slides fuel m (splitIntoSlides (split_nl input) bodyStart) = Some (slides p)
     \<and> parse 1 ''# Welcome'' =
         Some \<lparr>meta = initial_meta\<lparr>title := Some ''Welcome''\<rparr>,
               slides = [\<lparr>layout = Title, slide_title = Some ''Welcome'', subtitle = None,
                          blocks = [], slide_notes = None, background = None\<rparr>]\<rparr>"
proof -
  from parse_SomeD [OF assms(1)]
  have ps: "parse_slides fuel m (splitIntoSlides (split_nl input) bodyStart) = Some (slides p)"
    and mp: "meta p = backfill_title m (slides p)"
    by (simp_all add: assms(2))
  have hd: "slides p \<noteq> [] \<Longrightarrow> slides p ! 0 = hd (slides p)"
    by (simp add: hd_conv_nth)
  have ex: "parse 1 ''# Welcome'' =
         Some \<lparr>meta = initial_meta\<lparr>title := Some ''Welcome''\<rparr>,
               slides = [\<lparr>layout = Title, slide_title = Some ''Welcome'', subtitle = None,
                          blocks = [], slide_notes = None, background = None\<rparr>]\<rparr>"
    by code_simp
  show ?thesis using ps hd ex by (auto simp: mp backfill_title_def)
qed

theorem C8_title_backfill_witness:
  "parse 9 (join [CHR 0x0A] [''---'', ''author: Ann'', ''---'', '''', ''## Welcome'', ''text''])
     \<noteq> None
   \<and> meta (the (parse 9
       (join [CHR 0x0A] [''---'', ''author: Ann'', ''---'', '''', ''## Welcome'', ''text''])))
     = initial_meta\<lparr>title := Some ''Welcome'', author := Some ''Ann''\<rparr>"
proof -
  let ?in = "join [CHR 0x0A] [''---'', ''author: Ann'', ''---'', '''', ''## Welcome'', ''text'']"
  have ne: "parse 9 ?in \<noteq> None" by code_simp
  then obtain p where e: "parse 9 ?in = Some p" by auto
  then have p: "p = the (parse 9 ?in)" by simp
  have pf: "parseFrontmatter (split_nl ?in) = (initial_meta\<lparr>author := Some ''Ann''\<rparr>, 3)"
    by code_simp
  have c: "(if \<not> truthy (title (initial_meta\<lparr>author := Some ''Ann''\<rparr>))
               \<and> slides (the (parse 9 ?in)) \<noteq> []
               \<and> truthy (slide_title (hd (slides (the (parse 9 ?in)))))
            then slide_title (hd (slides (the (parse 9 ?in))))
            else title (initial_meta\<lparr>author := Some ''Ann''\<rparr>)) = Some ''Welcome''"
    by code_simp
  note th = C8_title_backfill [OF e pf]
  from th have "title (meta p) =
           (if \<not> truthy (title (initial_meta\<lparr>author := Some ''Ann''\<rparr>))
               \<and> slides p \<noteq> [] \<and> truthy (slide_title (hd (slides p)))
            then slide_title (hd (slides p))
            else title (initial_meta\<lparr>author := Some ''Ann''\<rparr>))"
    by (rule conjunct1)
  then have t: "title (meta p) = Some ''Welcome''" unfolding p c .
  from th have "meta p = initial_meta\<lparr>author := Some ''Ann''\<rparr>\<lparr>title := title (meta p)\<rparr>"
    by blast
  then have "meta p = initial_meta\<lparr>title := Some ''Welcome'', author := Some ''Ann''\<rparr>"
    unfolding t by (simp add: initial_meta_def)
  with ne show ?thesis unfolding p by blast
qed

lemma parse_blocks_ok:
  assumes "parse fuel input = Some p" and "s \<in> set (slides p)" and "b \<in> set (blocks s)"
  shows "list_block_ok b"
proof -
  from parse_slide_origin [OF assms(1) assms(2)]
  obtain chunk f where "parseSlide fuel chunk f = Some s" by blast
  then show ?thesis using assms(3) by (rule parseSlide_blocks_ok)
qed

text \<open>
  Away from the two-space prefix the round trip holds: for every \<^verbatim>\<open>bullets\<close> block of
  a returned presentation none of whose items carries the prefix, writing each item on a
  line of its own behind the marker \<^verbatim>\<open>- \<close> and parsing these lines with the bullet-list
  parser gives the same items. Indented bullets with a text are among these: their
  trimmed line matches the top-level pattern first, and they are stored without prefix.
\<close>

lemma bullets_roundtrip_without_prefix:
  assumes "parse fuel input = Some p" and "s \<in> set (slides p)" and "b \<in> set (blocks s)"
    and "btype b = Bullets" and "items b = Some its"
    and "\<forall>it\<in>set its. \<not> startsWith it ''  ''"
  shows "items (fst (parseBulletList (map serialize_item its) 0)) = Some its"
proof -
  from parse_blocks_ok [OF assms(1) assms(2) assms(3)] assms(4) assms(5)
  have "\<forall>it\<in>set its. item_ok it \<or> startsWith it ''  ''"
    by (simp add: list_block_ok_def)
  with assms(6) have ok: "\<forall>it\<in>set its. item_ok it" by blast
  have "bullet_loop (map serialize_item its) 0 [] = ([] @ drop 0 its, int (length its) - 1)"
    by (rule bullet_loop_roundtrip [OF ok]) simp_all
  then show ?thesis by (simp add: parseBulletList_def)
qed

lemma bullets_roundtrip_without_prefix_example:
  "parse 9 (join [CHR 0x0A] [''# L'', ''- a'', ''  - b'', '''', ''* c d'', ''1. x'']) \<noteq> None
   \<and> items (blocks (slides (the (parse 9
        (join [CHR 0x0A] [''# L'', ''- a'', ''  - b'', '''', ''* c d'', ''1. x'']))) ! 0) ! 0) =
       Some [''a'', ''b'', ''c d'']
   \<and> items (fst (parseBulletList (map serialize_item [''a'', ''b'', ''c d'']) 0)) =
       Some [''a'', ''b'', ''c d'']"
proof -
  let ?in = "join [CHR 0x0A] [''# L'', ''- a'', ''  - b'', '''', ''* c d'', ''1. x'']"
  have ne: "parse 9 ?in \<noteq> None" by code_simp
  then obtain p where e: "parse 9 ?in = Some p" by auto
  then have p: "p = the (parse 9 ?in)" by simp
  have ls: "0 < length (slides (the (parse 9 ?in)))" by code_simp
  have lb: "0 < length (blocks (slides (the (parse 9 ?in)) ! 0))" by code_simp
  have ty: "btype (blocks (slides (the (parse 9 ?in)) ! 0) ! 0) = Bullets" by code_simp
  have it: "items (blocks (slides (the (parse 9 ?in)) ! 0) ! 0) = Some [''a'', ''b'', ''c d'']"
    by code_simp
  have np: "\<forall>it\<in>set [''a'', ''b'', ''c d'']. \<not> startsWith it ''  ''"
    by (simp add: startsWith_def)
  have s: "slides p ! 0 \<in> set (slides p)" using ls unfolding p by (rule nth_mem)
  have b: "blocks (slides p ! 0) ! 0 \<in> set (blocks (slides p ! 0))"
    using lb unfolding p by (rule nth_mem)
  have "items (fst (parseBulletList (map serialize_item [''a'', ''b'', ''c d'']) 0)) =
       Some [''a'', ''b'', ''c d'']"
    using ty it unfolding p [symmetric] by (rule bullets_roundtrip_without_prefix [OF e s b _ _ np])
  with ne it show ?thesis by blast
qed

text \<open>
  Claim C9 says that writing the items of a \<^verbatim>\<open>bullets\<close> block back, one per line with
  the marker restored and behind the two-space prefix of a sub-item, and parsing these
  lines again gives the same items. The code breaks it where its sub-item branch misses
  the marker. That branch stores two spaces and \<^verbatim>\<open>lines[i].trim().replace(/^[-*]\s+/, '')\<close>;
  it is reached only by an indented line that holds a bare marker, whose trimmed form has
  no white space behind the marker, so nothing is stripped and the marker stays in the
  item. On the two lines \<^verbatim>\<open>- a\<close> and \<^verbatim>\<open>  - \<close> the parser returns one \<^verbatim>\<open>bullets\<close> block with
  the items \<^verbatim>\<open>a\<close> and \<^verbatim>\<open>  -\<close>; written back they are the lines \<^verbatim>\<open>- a\<close> and \<^verbatim>\<open>  - -\<close>, which
  the bullet-list parser reads as the items \<^verbatim>\<open>a\<close> and \<^verbatim>\<open>-\<close>. The marker \<^verbatim>\<open>*\<close> behaves alike.
\<close>

theorem C9_bare_marker_breaks_roundtrip:
  "parse 9 (join [CHR 0x0A] [''- a'', ''  - '']) \<noteq> None
   \<and> map btype (blocks (slides (the (parse 9 (join [CHR 0x0A] [''- a'', ''  - '']))) ! 0)) =
       [Bullets]
   \<and> items (blocks (slides (the (parse 9 (join [CHR 0x0A] [''- a'', ''  - '']))) ! 0) ! 0) =
       Some [''a'', ''  -'']
   \<and> map serialize_item [''a'', ''  -''] = [''- a'', ''  - -'']
   \<and> items (fst (parseBulletList (map serialize_item [''a'', ''  -'']) 0)) = Some [''a'', ''-'']
   \<and> items (fst (parseBulletList [''* a'', ''  * ''] 0)) = Some [''a'', ''  *'']
   \<and> items (fst (parseBulletList (map serialize_item [''a'', ''  *'']) 0)) = Some [''a'', ''*'']"
  by code_simp

theorem C9_bare_marker_breaks_roundtrip_witness:
  "items (fst (parseBulletList (map serialize_item [''a'', ''  -'']) 0)) \<noteq>
     items (blocks (slides (the (parse 9 (join [CHR 0x0A] [''- a'', ''  - '']))) ! 0) ! 0)"
proof -
  note th = C9_bare_marker_breaks_roundtrip
  from th
  have a: "items (blocks (slides (the (parse 9 (join [CHR 0x0A] [''- a'', ''  - '']))) ! 0) ! 0) =
             Some [''a'', ''  -'']"
    by blast
  from th
  have b: "items (fst (parseBulletList (map serialize_item [''a'', ''  -'']) 0)) =
             Some [''a'', ''-'']"
    by blast
  have "Some [''a'', ''-''] \<noteq> Some [''a'', ''  -'']" by simp
  then show ?thesis unfolding a b .
qed

text \<open>
  Claim C10. Every block of type \<^verbatim>\<open>bullets\<close> or \<^verbatim>\<open>numbered\<close> of a returned presentation
  has an items array, and the array is not empty.
\<close>

theorem C10_list_blocks_nonempty:
  assumes "parse fuel input = Some p" and "s \<in> set (slides p)" and "b \<in> set (blocks s)"
    and "btype b = Bullets \<or> btype b = Numbered"
  shows "\<exists>its. items b = Some its \<and> its \<noteq> []"
  using parse_blocks_ok [OF assms(1) assms(2) assms(3)] assms(4)
  by (auto simp: list_block_ok_def)

theorem C10_list_blocks_nonempty_witness:
  "parse 9 (join [CHR 0x0A] [''Intro'', ''1. x'', '''', ''2. y'', ''- a'']) \<noteq> None
   \<and> map btype (blocks (slides (the (parse 9
        (join [CHR 0x0A] [''Intro'', ''1. x'', '''', ''2. y'', ''- a'']))) ! 0)) =
       [Text, Numbered, Bullets]
   \<and> (\<exists>its. items (blocks (slides (the (parse 9
        (join [CHR 0x0A] [''Intro'', ''1. x'', '''', ''2. y'', ''- a'']))) ! 0) ! 1) = Some its
         \<and> its \<noteq> [])"
proof -
  let ?in = "join [CHR 0x0A] [''Intro'', ''1. x'', '''', ''2. y'', ''- a'']"
  have ne: "parse 9 ?in \<noteq> None" by code_simp
  then obtain p where e: "parse 9 ?in = Some p" by auto
  then have p: "p = the (parse 9 ?in)" by simp
  have ls: "0 < length (slides (the (parse 9 ?in)))" by code_simp
  have lb: "1 < length (blocks (slides (the (parse 9 ?in)) ! 0))" by code_simp
  have tys: "map btype (blocks (slides (the (parse 9 ?in)) ! 0)) = [Text, Numbered, Bullets]"
    by code_simp
  have ty: "btype (blocks (slides (the (parse 9 ?in)) ! 0) ! 1) = Bullets
            \<or> btype (blocks (slides (the (parse 9 ?in)) ! 0) ! 1) = Numbered"
    by code_simp
  have s: "slides p ! 0 \<in> set (slides p)" using ls unfolding p by (rule nth_mem)
  have b: "blocks (slides p ! 0) ! 1 \<in> set (blocks (slides p ! 0))"
    using lb unfolding p by (rule nth_mem)
  have "\<exists>its. items (blocks (slides p ! 0) ! 1) = Some its \<and> its \<noteq> []"
    using ty unfolding p [symmetric] by (rule C10_list_blocks_nonempty [OF e s b])
  with ne tys show ?thesis unfolding p by blast
qed

end
